theory Spec2Isabelle
  imports Main "HOL-Library.Sublist"
begin

section \<open>Values, objects and the connection\<close>

text \<open>
  The embedding follows one connection (one \<^verbatim>\<open>Protocol\<close> instance) of one server.
  Parser objects live in a store and are named by references, because the connection, the
  server and every \<^verbatim>\<open>Intercept\<close> hold references to parsers and the claims depend
  on which object a reference names.  User functions (command handlers, menu and reader
  callbacks, callable prompts) are named by numbers and interpreted by an environment, so
  that a handler may change the whole world, raise, or do both.
\<close>

type_synonym ref = nat
type_synonym cb = nat

datatype exn =
    DontStopException
  | AttributeError
  | IndexError
  | TypeError
  | ValueError
  | Exception string

text \<open>The one connection of the model; \<^verbatim>\<open>Caller.connection\<close> is it or \<^verbatim>\<open>None\<close>.\<close>

datatype conn = Conn

text \<open>
  \<^verbatim>\<open>Caller\<close> (caller.py).  The field \<^verbatim>\<open>match\<close> is never assigned by the package and
  is left out; \<^verbatim>\<open>text\<close> is spelled \<open>ctext\<close>.
\<close>

record caller =
  connection :: "conn option"
  ctext :: "string option"
  command :: string
  args_str :: string
  args :: "string option list"
  kwargs :: "(string \<times> string option) list"
  exception :: "exn option"

definition Caller :: "conn option \<Rightarrow> string option \<Rightarrow> caller" where
  "Caller con t =
     \<lparr>connection = con, ctext = t, command = [], args_str = [], args = [], kwargs = [],
      exception = None\<rparr>"

text \<open>A value that is either a string to send or a callable taking the caller.\<close>

datatype text_or_hook = Text string | Hook cb

text \<open>
  A compiled regular expression is used only through \<^verbatim>\<open>match(args)\<close>, which gives
  \<^verbatim>\<open>None\<close> or a match with its \<^verbatim>\<open>groups()\<close> and \<^verbatim>\<open>groupdict()\<close>.
\<close>

type_synonym pattern = "string \<Rightarrow> (string option list \<times> (string \<times> string option) list) option"

text \<open>\<^verbatim>\<open>Command\<close> (command.py); \<^verbatim>\<open>help\<close> is spelled \<open>help_text\<close>.\<close>

record command =
  func :: cb
  names :: "string list"
  description :: string
  help_text :: string
  args_regexp :: "pattern option"
  allowed :: "nat option"

text \<open>
  \<^verbatim>\<open>MenuItem\<close> and \<^verbatim>\<open>MenuLabel\<close> (intercept.py).  Python compares menu items by object
  identity (\<^verbatim>\<open>list.index\<close>, \<^verbatim>\<open>label.after is i\<close>); \<open>item_id\<close> is that identity.
\<close>

record menu_item =
  item_id :: nat
  item_text :: string
  item_func :: cb
  index :: nat

record menu_label =
  label_text :: string
  after :: "nat option"

text \<open>
  The classes \<^verbatim>\<open>Parser\<close>, \<^verbatim>\<open>Intercept\<close>, \<^verbatim>\<open>Menu\<close>, \<^verbatim>\<open>Reader\<close> and \<^verbatim>\<open>YesOrNo\<close>:
  a subclass extends the record of its base class.  The dictionaries keep insertion order.
  An entry of \<^verbatim>\<open>commands\<close> holds a reference to the list of the overloads of a name,
  which is an object of its own: the dispatch loop iterates that list object, not a copy.
  \<^verbatim>\<open>command_class\<close> and \<^verbatim>\<open>default_args_regexp\<close> are read only while a command is
  registered and are left out.
\<close>

record parser =
  command_separator :: string
  commands :: "(string \<times> ref) list"
  command_substitutions :: "(string \<times> string) list"

record intercept = parser +
  abort_command :: string
  aborted :: text_or_hook
  no_abort :: "text_or_hook option"
  restore_parser :: "ref option"

record menu = intercept +
  title :: string
  items :: "menu_item list"
  labels :: "menu_label list"
  prompt :: text_or_hook
  no_matches :: "cb option"
  multiple_matches :: "cb option"
  persistent :: bool

record reader = intercept +
  done_cb :: "cb option"
  prompt :: "text_or_hook option"
  line_separator :: string
  done_command :: string
  spell_check_command :: string
  multiline :: bool
  before_line :: "text_or_hook option"
  after_line :: "text_or_hook option"
  buffer :: string

record yes_or_no = intercept +
  question :: string
  yes :: cb
  no :: "cb option"
  prompt :: string

datatype obj =
    ParserObj parser
  | InterceptObj intercept
  | MenuObj menu
  | ReaderObj reader
  | YesOrNoObj yes_or_no

text \<open>
  What the connection and the loggers have seen, in order.  \<open>OnDetach\<close> and \<open>OnAttach\<close>
  record that the hook of that object was called with that argument: the hooks of
  \<^verbatim>\<open>Parser\<close> do nothing, and the record makes the call itself observable.
\<close>

datatype event =
    Sent string
  | WarnParserNone ref
  | WarnErrorCaught ref "string list"
  | LogException exn
  | Printed ref
  | OnDetach ref "ref option"
  | OnAttach ref "ref option"

text \<open>
  The world: the object store, the lists of overloads (a reference that was never used
  names an empty list), \<^verbatim>\<open>Protocol._parser\<close>, \<^verbatim>\<open>Server.default_parser\<close> and the trace.
\<close>

record world =
  objects :: "ref \<Rightarrow> obj option"
  overloads :: "ref \<Rightarrow> command list"
  protocol_parser :: "ref option"
  default_parser :: ref
  trace :: "event list"

text \<open>
  The environment interprets the callables: \<open>funcs\<close> those called with a caller,
  \<open>funcs2\<close> the \<^verbatim>\<open>multiple_matches\<close> hooks (caller and matching items), \<open>perms\<close> the
  permission predicates, \<open>spell_checker\<close> what \<^verbatim>\<open>Server.get_spell_checker\<close> returns
  (the flow it starts belongs to an extension outside the core), \<open>int_max_str_digits\<close>
  the interpreter's limit on the digits that \<^verbatim>\<open>int\<close> converts
  (\<^verbatim>\<open>sys.int_max_str_digits\<close>; 0 where there is no limit).
\<close>

record env =
  funcs :: "cb \<Rightarrow> caller \<Rightarrow> world \<Rightarrow> (exn + unit) \<times> caller \<times> world"
  funcs2 :: "cb \<Rightarrow> caller \<Rightarrow> menu_item list \<Rightarrow> world \<Rightarrow> (exn + unit) \<times> caller \<times> world"
  perms :: "nat \<Rightarrow> caller \<Rightarrow> world \<Rightarrow> bool"
  spell_checker :: "cb option"
  int_max_str_digits :: nat

section \<open>Sending\<close>

text \<open>
  \<^verbatim>\<open>Protocol.notify\<close> with a string and no arguments: \<^verbatim>\<open>Server.notify\<close> formats the
  text with nothing and hands it to \<^verbatim>\<open>sendLine\<close>.
\<close>

definition notify :: "string \<Rightarrow> world \<Rightarrow> world" where
  "notify s w = w\<lparr>trace := trace w @ [Sent s]\<rparr>"

fun notify_all :: "string list \<Rightarrow> world \<Rightarrow> world" where
  "notify_all [] w = w"
| "notify_all (s # ss) w = notify_all ss (notify s w)"

text \<open>\<^verbatim>\<open>Intercept.send\<close>: call a callable, send a string if there is a connection.\<close>

definition send :: "env \<Rightarrow> text_or_hook \<Rightarrow> caller \<Rightarrow> world \<Rightarrow> (exn + unit) \<times> caller \<times> world" where
  "send env v c w =
     (case v of
        Hook f \<Rightarrow> funcs env f c w
      | Text s \<Rightarrow> (case connection c of
                    Some _ \<Rightarrow> (Inr (), c, notify s w)
                  | None \<Rightarrow> (Inr (), c, w)))"

text \<open>Decimal digits of a number, as \<^verbatim>\<open>str.format\<close> prints an index.\<close>

definition digit_char :: "nat \<Rightarrow> char" where
  "digit_char d = char_of (48 + d)"

function show_nat :: "nat \<Rightarrow> string" where
  "show_nat n = (if n < 10 then [digit_char n] else show_nat (n div 10) @ [digit_char (n mod 10)])"
  by pat_completeness auto
termination
  by (relation "measure id") auto

declare show_nat.simps [simp del]


section \<open>Renderings (the \<^verbatim>\<open>explain\<close> methods)\<close>

text \<open>\<^verbatim>\<open>MenuItem.as_string\<close>: \<^verbatim>\<open>"[{0.index}] {0.text}".format(self)\<close>.\<close>

definition as_string :: "menu_item \<Rightarrow> string" where
  "as_string i = ''['' @ show_nat (index i) @ ''] '' @ item_text i"

text \<open>
  \<^verbatim>\<open>Menu.send_items\<close>: the labels with no anchor, then every item followed by the
  labels anchored after it.
\<close>

definition menu_lines :: "menu \<Rightarrow> menu_item list \<Rightarrow> string list" where
  "menu_lines m its =
     map label_text (filter (\<lambda>l. after l = None) (labels m)) @
     concat (map (\<lambda>i. as_string i #
                       map label_text (filter (\<lambda>l. after l = Some (item_id i)) (labels m)))
                 its)"

definition Menu_send_items :: "menu \<Rightarrow> menu_item list \<Rightarrow> world \<Rightarrow> world" where
  "Menu_send_items m its w = notify_all (menu_lines m its) w"

text \<open>\<^verbatim>\<open>Menu.explain\<close>: title, items, then the prompt through \<^verbatim>\<open>send\<close>.\<close>

definition Menu_explain :: "env \<Rightarrow> menu \<Rightarrow> world \<Rightarrow> (exn + unit) \<times> world" where
  "Menu_explain env m w =
     (case send env (menu.prompt m) (Caller (Some Conn) None)
                (Menu_send_items m (items m) (notify (title m) w)) of
        (r, _, w') \<Rightarrow> (r, w'))"

text \<open>
  \<^verbatim>\<open>Reader.explain\<close>.  The two default notices are formatted with \<^verbatim>\<open>%s\<close>, which is
  concatenation here.
\<close>

definition exit_hint :: "reader \<Rightarrow> string" where
  "exit_hint r = (if no_abort r = None then '' or '' @ abort_command r @ '' to exit'' else [])"

definition Reader_explain :: "env \<Rightarrow> reader \<Rightarrow> world \<Rightarrow> (exn + unit) \<times> world" where
  "Reader_explain env r w =
     (let c = Caller (Some Conn) (Some (buffer r));
          (res, c1, w1) =
            (case reader.prompt r of
               None \<Rightarrow>
                 (if multiline r
                  then (Inr (), c, notify (''Enter lines of text. Type '' @ done_command r @
                                             '' on a blank line to finish'' @ exit_hint r @ ''.'') w)
                  else (Inr (), c, notify (''Enter a line of text'' @ exit_hint r @ ''.'') w))
             | Some p \<Rightarrow> send env p c w)
      in case res of
           Inl e \<Rightarrow> (Inl e, w1)
         | Inr _ \<Rightarrow>
             (case before_line r of
                None \<Rightarrow> (Inr (), w1)
              | Some b \<Rightarrow> (case send env b c1 w1 of (r2, _, w2) \<Rightarrow> (r2, w2))))"

text \<open>\<^verbatim>\<open>YesOrNo.explain\<close>: the question, then the prompt.\<close>

definition YesOrNo_explain :: "yes_or_no \<Rightarrow> world \<Rightarrow> world" where
  "YesOrNo_explain y w = notify (yes_or_no.prompt y) (notify (question y) w)"

section \<open>Attaching and detaching (\<^verbatim>\<open>Protocol.parser\<close>)\<close>

text \<open>
  \<^verbatim>\<open>on_detach\<close> is \<^verbatim>\<open>Parser.on_detach\<close> for every class: it does nothing.
\<close>

definition on_detach :: "ref \<Rightarrow> ref option \<Rightarrow> world \<Rightarrow> world" where
  "on_detach self new_parser w = w\<lparr>trace := trace w @ [OnDetach self new_parser]\<rparr>"

text \<open>
  \<^verbatim>\<open>on_attach\<close>: \<^verbatim>\<open>Parser.on_attach\<close> does nothing; \<^verbatim>\<open>Intercept.on_attach\<close> calls
  \<^verbatim>\<open>self.explain(connection)\<close> and drops \<^verbatim>\<open>old_parser\<close>; \<^verbatim>\<open>Intercept.explain\<close> itself
  does nothing.  A reference that names no object has no such method.
\<close>

definition on_attach :: "env \<Rightarrow> ref \<Rightarrow> ref option \<Rightarrow> world \<Rightarrow> (exn + unit) \<times> world" where
  "on_attach env self old_parser w =
     (let w1 = w\<lparr>trace := trace w @ [OnAttach self old_parser]\<rparr>
      in case objects w1 self of
           None \<Rightarrow> (Inl AttributeError, w1)
         | Some (ParserObj p) \<Rightarrow> (Inr (), w1)
         | Some (InterceptObj i) \<Rightarrow> (Inr (), w1)
         | Some (MenuObj m) \<Rightarrow> Menu_explain env m w1
         | Some (ReaderObj r) \<Rightarrow> Reader_explain env r w1
         | Some (YesOrNoObj y) \<Rightarrow> (Inr (), YesOrNo_explain y w1))"

text \<open>
  The setter of \<^verbatim>\<open>Protocol.parser\<close>: detach the old parser (told the value as given),
  replace \<^verbatim>\<open>None\<close> by the server's default parser with a warning, store, print, attach.
\<close>

definition Protocol_parser_setter :: "env \<Rightarrow> ref option \<Rightarrow> world \<Rightarrow> (exn + unit) \<times> world" where
  "Protocol_parser_setter env v w =
     (let old_parser = protocol_parser w;
          w1 = (case old_parser of None \<Rightarrow> w | Some p \<Rightarrow> on_detach p v w);
          (v', w2) =
            (case v of
               None \<Rightarrow> (default_parser w1,
                        w1\<lparr>trace := trace w1 @ [WarnParserNone (default_parser w1)]\<rparr>)
             | Some p \<Rightarrow> (p, w1));
          w3 = w2\<lparr>protocol_parser := Some v', trace := trace w2 @ [Printed v']\<rparr>
      in on_attach env v' old_parser w3)"

section \<open>\<^verbatim>\<open>Intercept\<close>\<close>

text \<open>The fields of the base classes of the object a reference names.\<close>

definition get_parser :: "world \<Rightarrow> ref \<Rightarrow> parser option" where
  "get_parser w self =
     (case objects w self of
        None \<Rightarrow> None
      | Some (ParserObj p) \<Rightarrow> Some p
      | Some (InterceptObj i) \<Rightarrow> Some (parser.truncate i)
      | Some (MenuObj m) \<Rightarrow> Some (parser.truncate m)
      | Some (ReaderObj r) \<Rightarrow> Some (parser.truncate r)
      | Some (YesOrNoObj y) \<Rightarrow> Some (parser.truncate y))"

definition get_intercept :: "world \<Rightarrow> ref \<Rightarrow> intercept option" where
  "get_intercept w self =
     (case objects w self of
        None \<Rightarrow> None
      | Some (ParserObj p) \<Rightarrow> None
      | Some (InterceptObj i) \<Rightarrow> Some i
      | Some (MenuObj m) \<Rightarrow> Some (intercept.truncate m)
      | Some (ReaderObj r) \<Rightarrow> Some (intercept.truncate r)
      | Some (YesOrNoObj y) \<Rightarrow> Some (intercept.truncate y))"

text \<open>
  \<^verbatim>\<open>Intercept.__init__\<close>.  Its base is built by \<^verbatim>\<open>super().__init__()\<close> with no
  arguments, so \<open>base\<close> is the parser that \<^verbatim>\<open>Parser()\<close> builds at that moment (the default
  dictionaries are shared objects).  The arguments \<^verbatim>\<open>no_abort\<close> and \<^verbatim>\<open>restore_parser\<close>
  are accepted and not stored.
\<close>

definition Parser_init :: "string \<Rightarrow> (string \<times> ref) list \<Rightarrow> (string \<times> string) list \<Rightarrow> parser" where
  "Parser_init sep cmds subs =
     \<lparr>command_separator = sep, commands = cmds, command_substitutions = subs\<rparr>"

definition Intercept_init ::
  "parser \<Rightarrow> string \<Rightarrow> text_or_hook \<Rightarrow> text_or_hook option \<Rightarrow> ref option \<Rightarrow> intercept" where
  "Intercept_init base abort_command_arg aborted_arg no_abort_arg restore_parser_arg =
     parser.extend base
       \<lparr>abort_command = abort_command_arg, aborted = aborted_arg, no_abort = None,
        restore_parser = None\<rparr>"

text \<open>Python truth of \<^verbatim>\<open>self.no_abort\<close>: \<^verbatim>\<open>None\<close> and the empty string are false.\<close>

definition truthy :: "text_or_hook option \<Rightarrow> bool" where
  "truthy v = (case v of None \<Rightarrow> False | Some (Text s) \<Rightarrow> s \<noteq> [] | Some (Hook f) \<Rightarrow> True)"

text \<open>\<^verbatim>\<open>Intercept.do_abort\<close>.\<close>

definition Intercept_do_abort :: "env \<Rightarrow> ref \<Rightarrow> caller \<Rightarrow> world \<Rightarrow> (exn + bool) \<times> caller \<times> world" where
  "Intercept_do_abort env self c w =
     (case get_intercept w self of
        None \<Rightarrow> (Inl AttributeError, c, w)
      | Some i \<Rightarrow>
          (case (if truthy (no_abort i) then no_abort i else None) of
             Some v \<Rightarrow>
               (case send env v c w of
                  (Inl e, c1, w1) \<Rightarrow> (Inl e, c1, w1)
                | (Inr _, c1, w1) \<Rightarrow> (Inr True, c1, w1))
           | None \<Rightarrow>
               (case send env (aborted i) c w of
                  (Inl e, c1, w1) \<Rightarrow> (Inl e, c1, w1)
                | (Inr _, c1, w1) \<Rightarrow>
                    (case connection c1 of
                       None \<Rightarrow> (Inr True, c1, w1)
                     | Some _ \<Rightarrow>
                         (case get_intercept w1 self of
                            None \<Rightarrow> (Inl AttributeError, c1, w1)
                          | Some i1 \<Rightarrow>
                              (case Protocol_parser_setter env (restore_parser i1) w1 of
                                 (Inl e, w2) \<Rightarrow> (Inl e, c1, w2)
                               | (Inr _, w2) \<Rightarrow> (Inr True, c1, w2)))))))"

text \<open>\<^verbatim>\<open>Intercept.huh\<close>: abort when the line is the abort command.\<close>

definition Intercept_huh :: "env \<Rightarrow> ref \<Rightarrow> caller \<Rightarrow> world \<Rightarrow> (exn + bool) \<times> caller \<times> world" where
  "Intercept_huh env self c w =
     (case get_intercept w self of
        None \<Rightarrow> (Inl AttributeError, c, w)
      | Some i \<Rightarrow>
          (if ctext c = Some (abort_command i) then Intercept_do_abort env self c w
           else (Inr False, c, w)))"


section \<open>Strings and lists as Python has them\<close>

text \<open>
  \<^verbatim>\<open>str.lower\<close>, \<^verbatim>\<open>int(text)\<close> and list indexing, on ASCII text.  \<^verbatim>\<open>int\<close> accepts
  surrounding white space (tab, line feed, vertical tab, form feed, carriage return and
  space: the characters 9 to 13 and 32), one sign, and decimal digits with single
  underscores between them; anything else is a \<^verbatim>\<open>ValueError\<close> (\<open>None\<close> here), and so
  is a text of more digits than the interpreter's limit allows (the limit applies above
  640 digits only).  An index counts from the end when negative and is an
  \<^verbatim>\<open>IndexError\<close> (\<open>None\<close>) out of range.
\<close>

definition lower_char :: "char \<Rightarrow> char" where
  "lower_char c =
     (let n = (of_char c :: nat) in if 65 \<le> n \<and> n \<le> 90 then char_of (n + 32) else c)"

definition lower :: "string \<Rightarrow> string" where
  "lower s = map lower_char s"

definition is_space :: "char \<Rightarrow> bool" where
  "is_space c = (let n = (of_char c :: nat) in (9 \<le> n \<and> n \<le> 13) \<or> n = 32)"

definition is_digit :: "char \<Rightarrow> bool" where
  "is_digit c = (let n = (of_char c :: nat) in 48 \<le> n \<and> n \<le> 57)"

definition digit_val :: "char \<Rightarrow> nat" where
  "digit_val c = (of_char c :: nat) - 48"

definition strip :: "string \<Rightarrow> string" where
  "strip s = rev (dropWhile is_space (rev (dropWhile is_space s)))"

fun digits_value :: "nat \<Rightarrow> string \<Rightarrow> nat option" where
  "digits_value acc [] = Some acc"
| "digits_value acc [c] = (if is_digit c then Some (10 * acc + digit_val c) else None)"
| "digits_value acc (c # d # ds) =
     (if is_digit c then digits_value (10 * acc + digit_val c) (d # ds)
      else if c = CHR ''_'' \<and> is_digit d then digits_value (10 * acc + digit_val d) ds
      else None)"

definition too_many_digits :: "nat \<Rightarrow> string \<Rightarrow> bool" where
  "too_many_digits limit body =
     (let digits = length (filter is_digit body)
      in 0 < limit \<and> 640 < digits \<and> limit < digits)"

definition py_int :: "nat \<Rightarrow> string \<Rightarrow> int option" where
  "py_int limit s =
     (case strip s of
        [] \<Rightarrow> None
      | c # cs \<Rightarrow>
          (let (neg, body) =
                 (if c = CHR ''-'' then (True, cs)
                  else if c = CHR ''+'' then (False, cs)
                  else (False, c # cs))
           in case body of
                [] \<Rightarrow> None
              | d # ds \<Rightarrow>
                  (if is_digit d \<and> \<not> too_many_digits limit body
                   then map_option (\<lambda>n. if neg then - int n else int n)
                          (digits_value (digit_val d) ds)
                   else None)))"

definition py_index :: "'a list \<Rightarrow> int \<Rightarrow> 'a option" where
  "py_index xs i =
     (if 0 \<le> i \<and> i < int (length xs) then Some (xs ! nat i)
      else if i < 0 \<and> - int (length xs) \<le> i then Some (xs ! nat (int (length xs) + i))
      else None)"

text \<open>\<^verbatim>\<open>sep.join(parts)\<close>.\<close>

fun join :: "string \<Rightarrow> string list \<Rightarrow> string" where
  "join sep [] = []"
| "join sep [x] = x"
| "join sep (x # y # ys) = x @ sep @ join sep (y # ys)"

section \<open>\<^verbatim>\<open>Menu\<close>\<close>

definition get_menu :: "world \<Rightarrow> ref \<Rightarrow> menu option" where
  "get_menu w self = (case objects w self of Some (MenuObj m) \<Rightarrow> Some m | _ \<Rightarrow> None)"

text \<open>\<^verbatim>\<open>MenuItem.__init__\<close>: a new object, with index 0.\<close>

definition MenuItem :: "nat \<Rightarrow> string \<Rightarrow> cb \<Rightarrow> menu_item" where
  "MenuItem new_id t f = \<lparr>item_id = new_id, item_text = t, item_func = f, index = 0\<rparr>"

text \<open>
  \<^verbatim>\<open>self.items.index(item)\<close>: the first position holding that object.  The loop of
  \<^verbatim>\<open>Menu.__init__\<close> gives every item that position plus one.
\<close>

definition list_index :: "menu_item list \<Rightarrow> menu_item \<Rightarrow> nat" where
  "list_index its item = length (takeWhile (\<lambda>x. item_id x \<noteq> item_id item) its)"

definition Menu_init ::
  "parser \<Rightarrow> string \<Rightarrow> menu_item list \<Rightarrow> menu_label list \<Rightarrow> text_or_hook \<Rightarrow> cb option \<Rightarrow>
   cb option \<Rightarrow> bool \<Rightarrow> menu" where
  "Menu_init base title_arg items_arg labels_arg prompt_arg no_matches_arg multiple_matches_arg
     persistent_arg =
     intercept.extend (Intercept_init base ''@abort'' (Text ''Aborted'') None None)
       \<lparr>title = title_arg,
        items = map (\<lambda>item. item\<lparr>index := list_index items_arg item + 1\<rparr>) items_arg,
        labels = labels_arg, prompt = prompt_arg, no_matches = no_matches_arg,
        multiple_matches = multiple_matches_arg, persistent = persistent_arg\<rparr>"

text \<open>
  \<^verbatim>\<open>Menu.item(name)(func)\<close>: build the item, append it, then call
  \<^verbatim>\<open>self.__attrs_post_init__()\<close>.  No class of the package defines that method, so the
  call raises \<^verbatim>\<open>AttributeError\<close> after the item was appended.
\<close>

definition Menu_item :: "ref \<Rightarrow> string \<Rightarrow> cb \<Rightarrow> nat \<Rightarrow> world \<Rightarrow> (exn + menu_item) \<times> world" where
  "Menu_item self name f new_id w =
     (case get_menu w self of
        None \<Rightarrow> (Inl AttributeError, w)
      | Some m \<Rightarrow>
          (let i = MenuItem new_id name f;
               w1 = w\<lparr>objects := (objects w)(self \<mapsto> MenuObj (m\<lparr>items := items m @ [i]\<rparr>))\<rparr>
           in (Inl AttributeError, w1)))"

text \<open>\<^verbatim>\<open>Menu._no_matches\<close>, the default hook for no match.\<close>

definition Menu_no_matches :: "env \<Rightarrow> ref \<Rightarrow> caller \<Rightarrow> world \<Rightarrow> (exn + unit) \<times> caller \<times> world" where
  "Menu_no_matches env self c w =
     (case connection c of
        None \<Rightarrow> (Inr (), c, w)
      | Some _ \<Rightarrow>
          (let w1 = notify ''Invalid selection.'' w
           in case get_menu w1 self of
                None \<Rightarrow> (Inl AttributeError, c, w1)
              | Some m \<Rightarrow>
                  (if \<not> persistent m
                   then (case Protocol_parser_setter env (restore_parser m) w1 of
                           (r, w2) \<Rightarrow> (r, c, w2))
                   else (Inr (), c, w1))))"

text \<open>
  \<^verbatim>\<open>Menu._multiple_matches\<close>, the default hook for several matches.  The prompt goes to
  \<^verbatim>\<open>notify\<close> directly, which fails on a callable (it has no \<^verbatim>\<open>encode\<close>).
\<close>

definition Menu_multiple_matches ::
  "env \<Rightarrow> ref \<Rightarrow> caller \<Rightarrow> menu_item list \<Rightarrow> world \<Rightarrow> (exn + unit) \<times> caller \<times> world" where
  "Menu_multiple_matches env self c matches w =
     (case connection c of
        None \<Rightarrow> (Inr (), c, w)
      | Some _ \<Rightarrow>
          (case get_menu w self of
             None \<Rightarrow> (Inl AttributeError, c, w)
           | Some m \<Rightarrow>
               (let w1 = Menu_send_items m matches (notify ''That matched multiple items:'' w)
                in case menu.prompt m of
                     Text s \<Rightarrow> (Inr (), c, notify s w1)
                   | Hook f \<Rightarrow> (Inl AttributeError, c, w1))))"

text \<open>
  \<^verbatim>\<open>Menu.match\<close>.  \<open>indexed\<close> is the \<^verbatim>\<open>try\<close> block: \<^verbatim>\<open>None\<close> stands for the
  \<^verbatim>\<open>ValueError\<close> of \<^verbatim>\<open>int\<close> or the \<^verbatim>\<open>IndexError\<close> of the subscript, which share one
  handler.  The subscript of the \<^verbatim>\<open>"$"\<close> branch is outside the \<^verbatim>\<open>try\<close>.
\<close>

definition indexed :: "nat \<Rightarrow> menu_item list \<Rightarrow> string \<Rightarrow> menu_item option" where
  "indexed limit its t =
     (case py_int limit t of
        None \<Rightarrow> None
      | Some num \<Rightarrow> py_index its (if num > 0 then num - 1 else num))"

definition Menu_match ::
  "env \<Rightarrow> ref \<Rightarrow> caller \<Rightarrow> world \<Rightarrow> (exn + menu_item option) \<times> caller \<times> world" where
  "Menu_match env self c w =
     (case get_menu w self of
        None \<Rightarrow> (Inl AttributeError, c, w)
      | Some m \<Rightarrow>
          (case ctext c of
             None \<Rightarrow> (Inr None, c, w)
           | Some t0 \<Rightarrow>
               (if t0 = [] then (Inr None, c, w)
                else
                  (let t = lower t0 in
                   if t = ''$'' then
                     (case py_index (items m) (- 1) of
                        None \<Rightarrow> (Inl IndexError, c, w)
                      | Some i \<Rightarrow> (Inr (Some i), c, w))
                   else
                     (case indexed (int_max_str_digits env) (items m) t of
                        Some i \<Rightarrow> (Inr (Some i), c, w)
                      | None \<Rightarrow>
                          (let found =
                                 (if t \<noteq> []
                                  then filter (\<lambda>item. prefix t (lower (item_text item))) (items m)
                                  else [])
                           in if found = [] then
                                (case (case no_matches m of
                                         None \<Rightarrow> Menu_no_matches env self c w
                                       | Some f \<Rightarrow> funcs env f c w) of
                                   (Inl e, c1, w1) \<Rightarrow> (Inl e, c1, w1)
                                 | (Inr _, c1, w1) \<Rightarrow> (Inr None, c1, w1))
                              else if length found = 1 then (Inr (Some (hd found)), c, w)
                              else
                                (case (case multiple_matches m of
                                         None \<Rightarrow> Menu_multiple_matches env self c found w
                                       | Some f \<Rightarrow> funcs2 env f c found w) of
                                   (Inl e, c1, w1) \<Rightarrow> (Inl e, c1, w1)
                                 | (Inr _, c1, w1) \<Rightarrow> (Inr None, c1, w1))))))))"

text \<open>\<^verbatim>\<open>Menu.huh\<close>: the abort check, then the match; a match restores, then calls.\<close>

definition Menu_huh :: "env \<Rightarrow> ref \<Rightarrow> caller \<Rightarrow> world \<Rightarrow> (exn + bool) \<times> caller \<times> world" where
  "Menu_huh env self c w =
     (case Intercept_huh env self c w of
        (Inl e, c1, w1) \<Rightarrow> (Inl e, c1, w1)
      | (Inr True, c1, w1) \<Rightarrow> (Inr True, c1, w1)
      | (Inr False, c1, w1) \<Rightarrow>
          (case Menu_match env self c1 w1 of
             (Inl e, c2, w2) \<Rightarrow> (Inl e, c2, w2)
           | (Inr (Some i), c2, w2) \<Rightarrow>
               (case (case connection c2 of
                        None \<Rightarrow> (Inr (), w2)
                      | Some _ \<Rightarrow>
                          (case get_menu w2 self of
                             None \<Rightarrow> (Inl AttributeError, w2)
                           | Some m \<Rightarrow> Protocol_parser_setter env (restore_parser m) w2)) of
                  (Inl e, w3) \<Rightarrow> (Inl e, c2, w3)
                | (Inr _, w3) \<Rightarrow>
                    (case funcs env (item_func i) c2 w3 of
                       (Inl e, c4, w4) \<Rightarrow> (Inl e, c4, w4)
                     | (Inr _, c4, w4) \<Rightarrow> (Inr True, c4, w4)))
           | (Inr None, c2, w2) \<Rightarrow>
               (case get_menu w2 self of
                  None \<Rightarrow> (Inl AttributeError, c2, w2)
                | Some m \<Rightarrow>
                    (if persistent m \<and> connection c2 \<noteq> None
                     then (case Menu_explain env m w2 of
                             (Inl e, w3) \<Rightarrow> (Inl e, c2, w3)
                           | (Inr _, w3) \<Rightarrow> (Inr True, c2, w3))
                     else (Inr True, c2, w2)))))"


section \<open>\<^verbatim>\<open>Reader\<close>\<close>

definition get_reader :: "world \<Rightarrow> ref \<Rightarrow> reader option" where
  "get_reader w self = (case objects w self of Some (ReaderObj r) \<Rightarrow> Some r | _ \<Rightarrow> None)"

text \<open>Python truth of an optional string: \<^verbatim>\<open>None\<close> and the empty string are false.\<close>

definition nonempty :: "string option \<Rightarrow> bool" where
  "nonempty t = (case t of None \<Rightarrow> False | Some s \<Rightarrow> s \<noteq> [])"

text \<open>
  The buffer after a line, in \<^verbatim>\<open>Reader.huh\<close>: \<open>line\<close> is \<^verbatim>\<open>caller.text\<close> as read on
  entry, \<open>cur\<close> is \<^verbatim>\<open>caller.text\<close> at that point.  The finish line of a multi-line
  reader leaves the buffer alone; an empty line never changes it.
\<close>

definition new_buffer :: "reader \<Rightarrow> string option \<Rightarrow> string option \<Rightarrow> string" where
  "new_buffer r line cur =
     (if \<not> multiline r \<or> line \<noteq> Some (done_command r) then
        (if buffer r \<noteq> [] \<and> nonempty line
         then join (line_separator r) [buffer r, case line of Some l \<Rightarrow> l | None \<Rightarrow> []]
         else if nonempty cur then (case cur of Some t \<Rightarrow> t | None \<Rightarrow> [])
         else buffer r)
      else buffer r)"

text \<open>\<^verbatim>\<open>Reader.huh\<close>.\<close>

definition Reader_huh :: "env \<Rightarrow> ref \<Rightarrow> caller \<Rightarrow> world \<Rightarrow> (exn + bool) \<times> caller \<times> world" where
  "Reader_huh env self c w =
     (case get_reader w self of
        None \<Rightarrow> (Inl AttributeError, c, w)
      | Some r0 \<Rightarrow>
          (let line = ctext c in
           case (case after_line r0 of
                   None \<Rightarrow> (Inr (), c, w)
                 | Some a \<Rightarrow> send env a c w) of
             (Inl e, c1, w1) \<Rightarrow> (Inl e, c1, w1)
           | (Inr _, c1, w1) \<Rightarrow>
               (case Intercept_huh env self c1 w1 of
                  (Inl e, c2, w2) \<Rightarrow> (Inl e, c2, w2)
                | (Inr True, c2, w2) \<Rightarrow> (Inr True, c2, w2)
                | (Inr False, c2, w2) \<Rightarrow>
                    (case connection c2 of
                       None \<Rightarrow> (Inr False, c2, w2)
                     | Some _ \<Rightarrow>
                         (case get_reader w2 self of
                            None \<Rightarrow> (Inl AttributeError, c2, w2)
                          | Some r \<Rightarrow>
                              (if line = Some (spell_check_command r) then
                                 (case spell_checker env of
                                    Some f \<Rightarrow>
                                      (case funcs env f c2 w2 of
                                         (Inl e, c3, w3) \<Rightarrow> (Inl e, c3, w3)
                                       | (Inr _, c3, w3) \<Rightarrow> (Inr True, c3, w3))
                                  | None \<Rightarrow>
                                      (Inr True, c2,
                                       notify ''Spell checking is not available on this system.'' w2))
                               else
                                 (let r' = r\<lparr>buffer := new_buffer r line (ctext c2)\<rparr>;
                                      w3 = w2\<lparr>objects := (objects w2)(self \<mapsto> ReaderObj r')\<rparr>;
                                      c3 = c2\<lparr>ctext := Some (buffer r')\<rparr>
                                  in if \<not> multiline r' \<or> line = Some (done_command r') then
                                       (case Protocol_parser_setter env (restore_parser r') w3 of
                                          (Inl e, w4) \<Rightarrow> (Inl e, c3, w4)
                                        | (Inr _, w4) \<Rightarrow>
                                            (case get_reader w4 self of
                                               None \<Rightarrow> (Inl AttributeError, c3, w4)
                                             | Some r4 \<Rightarrow>
                                                 (case done_cb r4 of
                                                    None \<Rightarrow> (Inr True, c3, w4)
                                                  | Some f \<Rightarrow>
                                                      (case funcs env f c3 w4 of
                                                         (Inl e, c5, w5) \<Rightarrow> (Inl e, c5, w5)
                                                       | (Inr _, c5, w5) \<Rightarrow> (Inr True, c5, w5)))))
                                     else
                                       (case before_line r' of
                                          None \<Rightarrow> (Inr False, c3, w3)
                                        | Some b \<Rightarrow>
                                            (case send env b c3 w3 of
                                               (Inl e, c4, w4) \<Rightarrow> (Inl e, c4, w4)
                                             | (Inr _, c4, w4) \<Rightarrow> (Inr False, c4, w4))))))))))"

section \<open>\<^verbatim>\<open>YesOrNo\<close>\<close>

definition get_yes_or_no :: "world \<Rightarrow> ref \<Rightarrow> yes_or_no option" where
  "get_yes_or_no w self = (case objects w self of Some (YesOrNoObj y) \<Rightarrow> Some y | _ \<Rightarrow> None)"

text \<open>\<^verbatim>\<open>YesOrNo.__init__\<close>: the default prompt names the abort command.\<close>

definition YesOrNo_init :: "parser \<Rightarrow> string \<Rightarrow> cb \<Rightarrow> cb option \<Rightarrow> string option \<Rightarrow> yes_or_no" where
  \<open>YesOrNo_init base question_arg yes_arg no_arg prompt_arg =
     (let i = Intercept_init base ''@abort'' (Text ''Aborted'') None None
      in intercept.extend i
           \<lparr>question = question_arg, yes = yes_arg, no = no_arg,
            prompt = (case prompt_arg of
                        None \<Rightarrow> ''Enter "yes" or "no" or '' @ abort_command i @
                                 '' to abort the command.''
                      | Some p \<Rightarrow> p)\<rparr>)\<close>

text \<open>
  \<^verbatim>\<open>YesOrNo.huh\<close>.  It answers \<^verbatim>\<open>False\<close> both when the abort check handled the line and
  when the text is empty.
\<close>

definition YesOrNo_huh :: "env \<Rightarrow> ref \<Rightarrow> caller \<Rightarrow> world \<Rightarrow> (exn + bool) \<times> caller \<times> world" where
  "YesOrNo_huh env self c w =
     (case Intercept_huh env self c w of
        (Inl e, c1, w1) \<Rightarrow> (Inl e, c1, w1)
      | (Inr True, c1, w1) \<Rightarrow> (Inr False, c1, w1)
      | (Inr False, c1, w1) \<Rightarrow>
          (case ctext c1 of
             None \<Rightarrow> (Inr False, c1, w1)
           | Some t \<Rightarrow>
               (if t = [] then (Inr False, c1, w1)
                else
                  (case (case connection c1 of
                           None \<Rightarrow> (Inr (), w1)
                         | Some _ \<Rightarrow>
                             (case get_yes_or_no w1 self of
                                None \<Rightarrow> (Inl AttributeError, w1)
                              | Some y \<Rightarrow> Protocol_parser_setter env (restore_parser y) w1)) of
                     (Inl e, w2) \<Rightarrow> (Inl e, c1, w2)
                   | (Inr _, w2) \<Rightarrow>
                       (case get_yes_or_no w2 self of
                          None \<Rightarrow> (Inl AttributeError, c1, w2)
                        | Some y \<Rightarrow>
                            (case (if prefix ''y'' (lower t) then
                                     (case funcs env (yes y) c1 w2 of
                                        (r, c3, w3) \<Rightarrow> (map_sum id (\<lambda>_. True) r, c3, w3))
                                   else
                                     (case no y of
                                        Some f \<Rightarrow>
                                          (case funcs env f c1 w2 of
                                             (r, c3, w3) \<Rightarrow> (map_sum id (\<lambda>_. True) r, c3, w3))
                                      | None \<Rightarrow> Intercept_do_abort env self c1 w2)) of
                               (Inl e, c3, w3) \<Rightarrow> (Inl e, c3, w3)
                             | (Inr _, c3, w3) \<Rightarrow> (Inr True, c3, w3)))))))"

section \<open>\<^verbatim>\<open>Parser\<close>: the hooks and the dispatch of a line\<close>

text \<open>\<^verbatim>\<open>Parser.huh\<close>: the notice for a line nobody understood.\<close>

definition Parser_huh :: "caller \<Rightarrow> world \<Rightarrow> (exn + bool) \<times> caller \<times> world" where
  "Parser_huh c w =
     (case connection c of
        None \<Rightarrow> (Inr True, c, w)
      | Some _ \<Rightarrow> (Inr True, c, notify ''I don't understand that.'' w))"

text \<open>\<^verbatim>\<open>self.huh(caller)\<close>: the method of the class of the object.\<close>

definition huh :: "env \<Rightarrow> ref \<Rightarrow> caller \<Rightarrow> world \<Rightarrow> (exn + bool) \<times> caller \<times> world" where
  "huh env self c w =
     (case objects w self of
        None \<Rightarrow> (Inl AttributeError, c, w)
      | Some (ParserObj p) \<Rightarrow> Parser_huh c w
      | Some (InterceptObj i) \<Rightarrow> Intercept_huh env self c w
      | Some (MenuObj m) \<Rightarrow> Menu_huh env self c w
      | Some (ReaderObj r) \<Rightarrow> Reader_huh env self c w
      | Some (YesOrNoObj y) \<Rightarrow> YesOrNo_huh env self c w)"

text \<open>\<^verbatim>\<open>Parser.on_error\<close> and \<^verbatim>\<open>Parser.pre_command\<close>; no class overrides them.\<close>

definition on_error :: "caller \<Rightarrow> world \<Rightarrow> world" where
  "on_error c w =
     (case connection c of
        None \<Rightarrow> w
      | Some _ \<Rightarrow> notify ''There was an error with your command.'' w)"

definition pre_command :: "caller \<Rightarrow> bool" where
  "pre_command c = True"

text \<open>
  \<^verbatim>\<open>Parser.explain_substitution\<close> and \<^verbatim>\<open>Parser.explain\<close>: the names, a hint for every
  substitution that expands to one of them, the description and the help.
\<close>

definition explain_substitution :: "parser \<Rightarrow> string \<Rightarrow> string \<Rightarrow> string" where
  \<open>explain_substitution p short long =
     ''Instead of typing "'' @ long @ command_separator p @ ''", you can type '' @ short @ ''.''\<close>

definition Parser_explain :: "parser \<Rightarrow> command \<Rightarrow> world \<Rightarrow> world" where
  "Parser_explain p cmd w =
     notify_all
       ([join '' or '' (names cmd) @ '':''] @
        map (\<lambda>(key, v). explain_substitution p key v)
            (filter (\<lambda>(key, v). v \<in> set (names cmd)) (command_substitutions p)) @
        [description cmd, help_text cmd])
       w"

text \<open>
  \<^verbatim>\<open>self.explain(cmd, caller.connection)\<close> as \<^verbatim>\<open>handle_line\<close> calls it.  The classes
  derived from \<^verbatim>\<open>Intercept\<close> redefine \<^verbatim>\<open>explain\<close> with one argument, so on them the
  call with two is a \<^verbatim>\<open>TypeError\<close>.
\<close>

definition explain_command :: "ref \<Rightarrow> command \<Rightarrow> world \<Rightarrow> (exn + unit) \<times> world" where
  "explain_command self cmd w =
     (case objects w self of
        None \<Rightarrow> (Inl AttributeError, w)
      | Some (ParserObj p) \<Rightarrow> (Inr (), Parser_explain p cmd w)
      | Some _ \<Rightarrow> (Inl TypeError, w))"

text \<open>\<^verbatim>\<open>Command.ok_for\<close>.\<close>

definition ok_for :: "env \<Rightarrow> command \<Rightarrow> caller \<Rightarrow> world \<Rightarrow> bool" where
  "ok_for env cmd c w = (case allowed cmd of None \<Rightarrow> True | Some a \<Rightarrow> perms env a c w)"

text \<open>
  \<^verbatim>\<open>line.split(sep, 1)\<close> and \<^verbatim>\<open>Parser.split\<close>: cut at the first separator; without one
  the arguments are empty.  An empty separator is a \<^verbatim>\<open>ValueError\<close>.
\<close>

fun split_once :: "string \<Rightarrow> string \<Rightarrow> string list" where
  "split_once sep [] = [[]]"
| "split_once sep (x # xs) =
     (if prefix sep (x # xs) then [[], drop (length sep) (x # xs)]
      else (case split_once sep xs of
              [] \<Rightarrow> []
            | a # rest \<Rightarrow> (x # a) # rest))"

definition Parser_split :: "parser \<Rightarrow> string \<Rightarrow> exn + string \<times> string" where
  "Parser_split p line =
     (if command_separator p = [] then Inl ValueError
      else (case split_once (command_separator p) line of
              [a] \<Rightarrow> Inr (a, [])
            | [a, b] \<Rightarrow> Inr (a, b)
            | _ \<Rightarrow> Inl ValueError))"

text \<open>
  \<^verbatim>\<open>Parser.get_commands\<close>: the list object of the name; \<open>None\<close> stands for the fresh
  empty list that \<^verbatim>\<open>dict.get\<close> is given as its default.
\<close>

definition get_commands :: "parser \<Rightarrow> string \<Rightarrow> ref option" where
  "get_commands p name = map_of (commands p) name"

text \<open>
  One turn of the \<^verbatim>\<open>for\<close> loop of \<^verbatim>\<open>Parser.handle_line\<close> and how it leaves: on to the
  next command, \<^verbatim>\<open>break\<close>, or an exception that leaves \<^verbatim>\<open>handle_line\<close>.  \<open>n\<close> is the
  counter \<^verbatim>\<open>commands\<close>.
\<close>

datatype control = Continue | Break | Propagate exn

definition loop_body ::
  "env \<Rightarrow> ref \<Rightarrow> string \<Rightarrow> command \<Rightarrow> caller \<Rightarrow> nat \<Rightarrow> world \<Rightarrow> control \<times> caller \<times> nat \<times> world" where
  "loop_body env self a cmd c n w =
     (if ok_for env cmd c w then
        (case (case args_regexp cmd of
                 None \<Rightarrow> Some (c\<lparr>args := [], kwargs := []\<rparr>)
               | Some rx \<Rightarrow>
                   (case rx a of
                      None \<Rightarrow> None
                    | Some (gs, gd) \<Rightarrow> Some (c\<lparr>args := gs, kwargs := gd\<rparr>))) of
           None \<Rightarrow>
             (case connection c of
                None \<Rightarrow> (Break, c, n, w)
              | Some _ \<Rightarrow>
                  (case explain_command self cmd w of
                     (Inl e, w1) \<Rightarrow> (Propagate e, c, n, w1)
                   | (Inr _, w1) \<Rightarrow> (Break, c, n, w1)))
         | Some c1 \<Rightarrow>
             (case funcs env (func cmd) c1 w of
                (Inr _, c2, w2) \<Rightarrow> (Break, c2, n + 1, w2)
              | (Inl e, c2, w2) \<Rightarrow>
                  (if e = DontStopException then (Continue, c2, n + 1, w2)
                   else
                     (let w3 = w2\<lparr>trace := trace w2 @ [WarnErrorCaught self (names cmd),
                                                          LogException e]\<rparr>;
                          c3 = c2\<lparr>exception := Some e\<rparr>
                      in (Continue, c3, n + 1, on_error c3 w3)))))
      else (Continue, c, n, w))"

text \<open>
  The \<^verbatim>\<open>for\<close> loop over the list object \<open>l\<close>, at position \<open>i\<close>.  The iterator of a
  Python list reads the list again at every turn, so what a handler appended or removed is
  seen; a handler that appends and asks to go on, every time, keeps the loop running for
  ever, which is the value \<open>None\<close>.  \<open>Continue\<close> as the first component means the list
  was exhausted (the \<^verbatim>\<open>else\<close> of the \<^verbatim>\<open>for\<close> runs).
\<close>

partial_function (option) for_commands ::
  "env \<Rightarrow> ref \<Rightarrow> string \<Rightarrow> ref \<Rightarrow> nat \<Rightarrow> caller \<Rightarrow> nat \<Rightarrow> world \<Rightarrow>
   (control \<times> caller \<times> nat \<times> world) option" where
  "for_commands env self a l i c n w =
     (if i < length (overloads w l) then
        (case loop_body env self a (overloads w l ! i) c n w of
           (Continue, c1, n1, w1) \<Rightarrow> for_commands env self a l (Suc i) c1 n1 w1
         | (Break, c1, n1, w1) \<Rightarrow> Some (Break, c1, n1, w1)
         | (Propagate e, c1, n1, w1) \<Rightarrow> Some (Propagate e, c1, n1, w1))
      else Some (Continue, c, n, w))"

text \<open>The substitution of the first character, at the head of \<^verbatim>\<open>handle_line\<close>.\<close>

definition substitute :: "parser \<Rightarrow> string \<Rightarrow> string" where
  "substitute p line =
     (case line of
        [] \<Rightarrow> line
      | x # xs \<Rightarrow>
          (case map_of (command_substitutions p) [x] of
             None \<Rightarrow> line
           | Some long \<Rightarrow> long @ command_separator p @ xs))"

text \<open>
  \<^verbatim>\<open>Parser.handle_line\<close> on the object \<open>self\<close>: the number of matched commands, or
  \<^verbatim>\<open>None\<close>.  The outer \<open>None\<close> is a loop that never ends.
\<close>

definition handle_line ::
  "env \<Rightarrow> ref \<Rightarrow> string \<Rightarrow> world \<Rightarrow> ((exn + nat option) \<times> world) option" where
  "handle_line env self line0 w =
     (case get_parser w self of
        None \<Rightarrow> Some (Inl AttributeError, w)
      | Some p \<Rightarrow>
          (let line = substitute p line0;
               c = Caller (Some Conn) (Some line)
           in if \<not> pre_command c then Some (Inr None, w)
              else
                (case Parser_split p line of
                   Inl e \<Rightarrow> Some (Inl e, w)
                 | Inr (name, a) \<Rightarrow>
                     (let c0 = c\<lparr>command := name, args_str := a\<rparr>
                      in case (case get_commands p name of
                                 None \<Rightarrow> Some (Continue, c0, 0, w)
                               | Some l \<Rightarrow> for_commands env self a l 0 c0 0 w) of
                           None \<Rightarrow> None
                         | Some (Propagate e, c1, n, w1) \<Rightarrow> Some (Inl e, w1)
                         | Some (Break, c1, n, w1) \<Rightarrow>
                             Some (Inr (if n \<noteq> 0 then Some n else None), w1)
                         | Some (Continue, c1, n, w1) \<Rightarrow>
                             (if n = 0 then
                                (case huh env self c1 w1 of
                                   (Inl e, c2, w2) \<Rightarrow> Some (Inl e, w2)
                                 | (Inr _, c2, w2) \<Rightarrow> Some (Inr None, w2))
                              else Some (Inr (Some n), w1))))))"

section \<open>Notions used in the statements\<close>

text \<open>
  An object renders text only when no prompt of its \<^verbatim>\<open>explain\<close> is a callable; then
  \<open>explain_lines\<close> are the lines that attaching it sends.
\<close>

definition hook_lines :: "text_or_hook option \<Rightarrow> string list" where
  "hook_lines h = (case h of Some (Text s) \<Rightarrow> [s] | _ \<Rightarrow> [])"

definition is_hook :: "text_or_hook option \<Rightarrow> bool" where
  "is_hook h = (case h of Some (Hook f) \<Rightarrow> True | _ \<Rightarrow> False)"

definition text_only :: "obj \<Rightarrow> bool" where
  "text_only b =
     (case b of
        ParserObj p \<Rightarrow> True
      | InterceptObj i \<Rightarrow> True
      | MenuObj m \<Rightarrow> \<not> is_hook (Some (menu.prompt m))
      | ReaderObj r \<Rightarrow> \<not> is_hook (reader.prompt r) \<and> \<not> is_hook (before_line r)
      | YesOrNoObj y \<Rightarrow> True)"

definition explain_lines :: "obj \<Rightarrow> string list" where
  "explain_lines b =
     (case b of
        ParserObj p \<Rightarrow> []
      | InterceptObj i \<Rightarrow> []
      | MenuObj m \<Rightarrow> title m # menu_lines m (items m) @ hook_lines (Some (menu.prompt m))
      | ReaderObj r \<Rightarrow>
          (case reader.prompt r of
             None \<Rightarrow>
               (if multiline r
                then [''Enter lines of text. Type '' @ done_command r @
                      '' on a blank line to finish'' @ exit_hint r @ ''.'']
                else [''Enter a line of text'' @ exit_hint r @ ''.''])
           | Some p \<Rightarrow> hook_lines (Some p)) @
          hook_lines (before_line r)
      | YesOrNoObj y \<Rightarrow> [question y, yes_or_no.prompt y])"

text \<open>
  The parser that an assignment of \<open>v\<close> to \<^verbatim>\<open>connection.parser\<close> makes current, and the
  world after the assignment when that parser is the object \<open>b\<close> and renders text only.
\<close>

definition target :: "world \<Rightarrow> ref option \<Rightarrow> ref" where
  "target w v = (case v of None \<Rightarrow> default_parser w | Some p \<Rightarrow> p)"

definition assigned :: "world \<Rightarrow> ref option \<Rightarrow> obj \<Rightarrow> world" where
  "assigned w v b =
     w\<lparr>protocol_parser := Some (target w v),
       trace := trace w @
                (case protocol_parser w of None \<Rightarrow> [] | Some p \<Rightarrow> [OnDetach p v]) @
                (case v of None \<Rightarrow> [WarnParserNone (default_parser w)] | Some p \<Rightarrow> []) @
                [Printed (target w v), OnAttach (target w v) (protocol_parser w)] @
                map Sent (explain_lines b)\<rparr>"

text \<open>
  The loop over the list \<open>l\<close> has made \<open>k\<close> turns from position \<open>i\<close>, each of which went
  on to the next overload: the state in which it reaches position \<open>i + k\<close>.
\<close>

fun went_on ::
  "env \<Rightarrow> ref \<Rightarrow> string \<Rightarrow> ref \<Rightarrow> nat \<Rightarrow> nat \<Rightarrow> caller \<Rightarrow> nat \<Rightarrow> world \<Rightarrow>
   (caller \<times> nat \<times> world) option" where
  "went_on env self a l i 0 c n w = Some (c, n, w)"
| "went_on env self a l i (Suc k) c n w =
     (if i < length (overloads w l) then
        (case loop_body env self a (overloads w l ! i) c n w of
           (Continue, c1, n1, w1) \<Rightarrow> went_on env self a l (Suc i) k c1 n1 w1
         | (Break, c1, n1, w1) \<Rightarrow> None
         | (Propagate e, c1, n1, w1) \<Rightarrow> None)
      else None)"

text \<open>A callback's outcome as the answer of a \<^verbatim>\<open>huh\<close> that returns \<^verbatim>\<open>True\<close> after it.\<close>

definition answered :: "(exn + 'a) \<times> caller \<times> world \<Rightarrow> (exn + bool) \<times> caller \<times> world" where
  "answered x = (case x of (Inl e, c, w) \<Rightarrow> (Inl e, c, w) | (Inr _, c, w) \<Rightarrow> (Inr True, c, w))"

text \<open>A hook's outcome as the answer of \<^verbatim>\<open>Menu.match\<close>, which returns \<^verbatim>\<open>None\<close> after it.\<close>

definition unmatched ::
  "(exn + 'a) \<times> caller \<times> world \<Rightarrow> (exn + menu_item option) \<times> caller \<times> world" where
  "unmatched x = (case x of (Inl e, c, w) \<Rightarrow> (Inl e, c, w) | (Inr _, c, w) \<Rightarrow> (Inr None, c, w))"

text \<open>The lines of a connection reaching \<^verbatim>\<open>Reader.huh\<close> one after the other.\<close>

fun feed_lines :: "env \<Rightarrow> ref \<Rightarrow> string list \<Rightarrow> world \<Rightarrow> world" where
  "feed_lines env self [] w = w"
| "feed_lines env self (l # ls) w =
     feed_lines env self ls (snd (snd (Reader_huh env self (Caller (Some Conn) (Some l)) w)))"

text \<open>
  The buffer of a reader after one more line: a line is appended with the separator, the
  first line of an empty buffer becomes the buffer, an empty line is dropped.
\<close>

definition appended :: "reader \<Rightarrow> string \<Rightarrow> string" where
  "appended r l =
     (if l = [] then buffer r
      else if buffer r = [] then l
      else buffer r @ line_separator r @ l)"

text \<open>What the literal after-line and before-line hooks of a reader send around a line.\<close>

definition line_events :: "reader \<Rightarrow> event list" where
  "line_events r = map Sent (hook_lines (after_line r) @ hook_lines (before_line r))"

text \<open>
  The completion of a reader with buffer \<open>b\<close>: the buffer is stored, \<^verbatim>\<open>restore_parser\<close>
  is assigned to the connection (the new current parser being the object \<open>tb\<close>), and then
  the completion hook, if any, is called with \<open>b\<close> as the caller's text.
\<close>

definition completed ::
  "env \<Rightarrow> ref \<Rightarrow> reader \<Rightarrow> string \<Rightarrow> caller \<Rightarrow> world \<Rightarrow> obj \<Rightarrow>
   (exn + bool) \<times> caller \<times> world" where
  "completed env self r b c w tb =
     (let w1 = w\<lparr>objects := (objects w)(self \<mapsto> ReaderObj (r\<lparr>buffer := b\<rparr>))\<rparr>;
          w2 = assigned w1 (restore_parser r) tb;
          c1 = c\<lparr>ctext := Some b\<rparr>
      in case done_cb r of
           None \<Rightarrow> (Inr True, c1, w2)
         | Some f \<Rightarrow> answered (funcs env f c1 w2))"

section \<open>A small server used in the examples\<close>

text \<open>
  Callable 0 raises an ordinary exception, callable 1 raises the continue signal, every
  other callable reports its number and the current parser to the connection.
  Permission 0 rejects everybody.
\<close>

definition ex_report :: "cb \<Rightarrow> world \<Rightarrow> string" where
  "ex_report f w =
     ''callable '' @ show_nat f @ '' sees parser '' @
     (case protocol_parser w of None \<Rightarrow> ''None'' | Some p \<Rightarrow> show_nat p)"

definition ex_env :: env where
  "ex_env =
     \<lparr>funcs = (\<lambda>f c w.
                 if f = 0 then (Inl (Exception ''boom''), c, w)
                 else if f = 1 then (Inl DontStopException, c, w)
                 else (Inr (), c, notify (ex_report f w) w)),
      funcs2 = (\<lambda>f c its w. (Inr (), c, notify (ex_report f w) w)),
      perms = (\<lambda>a c w. a \<noteq> 0),
      spell_checker = None,
      int_max_str_digits = 4300\<rparr>"

definition ex_command :: "cb \<Rightarrow> pattern option \<Rightarrow> nat option \<Rightarrow> command" where
  "ex_command f rx a =
     \<lparr>func = f, names = [''go''], description = ''Go somewhere.'', help_text = ''go <where>'',
      args_regexp = rx, allowed = a\<rparr>"


definition ex_base :: parser where
  "ex_base = Parser_init '' '' [] []"

definition ex_item :: "nat \<Rightarrow> string \<Rightarrow> menu_item" where
  "ex_item k s = MenuItem k s (10 + k)"

definition ex_menu :: "menu_item list \<Rightarrow> menu" where
  "ex_menu its =
     Menu_init ex_base ''Select an item:'' its [] (Text ''Type a number or @abort to abort.'')
       None None False"

definition ex_fruit :: "menu_item list" where
  "ex_fruit = [ex_item 1 ''Apple'', ex_item 2 ''Apricot'', ex_item 3 ''Banana'']"

definition ex_intercept :: intercept where
  "ex_intercept = Intercept_init ex_base ''@abort'' (Text ''Aborted'') None None"

definition ex_parser :: parser where
  "ex_parser = Parser_init '' '' [(''go'', 7)] [(''!'', ''go'')]"

definition ex_reader :: "bool \<Rightarrow> reader" where
  "ex_reader multi =
     intercept.extend (Intercept_init ex_base ''@abort'' (Text ''Aborted'') None None)
       \<lparr>done_cb = Some 7, prompt = None, line_separator = ''\<newline>'', done_command = ''.'',
        spell_check_command = ''.spell'', multiline = multi, before_line = None,
        after_line = None, buffer = []\<rparr>"

definition ex_yes_or_no :: "cb option \<Rightarrow> yes_or_no" where
  "ex_yes_or_no no_arg = YesOrNo_init ex_base ''Really?'' 8 no_arg None"

text \<open>
  Object 0 is the server's default parser; object 1 is another parser, current on the
  connection; object 2 is the object under study.
\<close>

definition ex_world :: "obj \<Rightarrow> world" where
  "ex_world b =
     \<lparr>objects = [0 \<mapsto> ParserObj ex_base, 1 \<mapsto> ParserObj ex_base, 2 \<mapsto> b],
      overloads = (\<lambda>l. []),
      protocol_parser = Some 1, default_parser = 0, trace = []\<rparr>"

text \<open>The same world after \<^verbatim>\<open>connection.parser = <object 2>\<close>.\<close>

definition ex_attached :: "obj \<Rightarrow> world" where
  "ex_attached b = snd (Protocol_parser_setter ex_env (Some 2) (ex_world b))"


text \<open>
  A parser of class \<^verbatim>\<open>Parser\<close> with the given overloads of \<^verbatim>\<open>go\<close> (list object 7),
  current on the connection.
\<close>

definition ex_dispatch :: "command list \<Rightarrow> world" where
  "ex_dispatch cmds = (ex_attached (ParserObj ex_parser))\<lparr>overloads := (\<lambda>l. [])(7 := cmds)\<rparr>"


text \<open>A menu of the given items, attached to the connection.\<close>

definition ex_menu_world :: "menu_item list \<Rightarrow> world" where
  "ex_menu_world its = ex_attached (MenuObj (ex_menu its))"

text \<open>A reader, attached to the connection.\<close>

definition ex_reader_world :: "bool \<Rightarrow> world" where
  "ex_reader_world multi = ex_attached (ReaderObj (ex_reader multi))"

section \<open>Basic facts\<close>

lemma notify_fields [simp]:
  "trace (notify s w) = trace w @ [Sent s]"
  "objects (notify s w) = objects w"
  "protocol_parser (notify s w) = protocol_parser w"
  "default_parser (notify s w) = default_parser w"
  "overloads (notify s w) = overloads w"
  by (simp_all add: notify_def)

lemma notify_all_eq: "notify_all ss w = w\<lparr>trace := trace w @ map Sent ss\<rparr>"
  by (induction ss arbitrary: w) (simp_all add: notify_def)

lemma send_Text:
  "send env (Text s) c w = (Inr (), c, if connection c = None then w else notify s w)"
  by (simp add: send_def split: option.splits)

text \<open>Attaching an object that renders text only sends its lines and changes nothing else.\<close>

lemma on_attach_text_only:
  assumes "objects w self = Some b" and "text_only b"
  shows "on_attach env self old w =
           (Inr (), w\<lparr>trace := trace w @ OnAttach self old # map Sent (explain_lines b)\<rparr>)"
proof (cases b)
  case (ParserObj p)
  with assms show ?thesis by (simp add: on_attach_def explain_lines_def)
next
  case (InterceptObj i)
  with assms show ?thesis by (simp add: on_attach_def explain_lines_def)
next
  case (MenuObj m)
  with assms obtain s where "menu.prompt m = Text s"
    by (cases "menu.prompt m") (simp_all add: text_only_def is_hook_def)
  with assms MenuObj show ?thesis
    by (simp add: on_attach_def explain_lines_def Menu_explain_def send_Text Caller_def
        Menu_send_items_def notify_all_eq notify_def hook_lines_def)
next
  case (ReaderObj r)
  from assms ReaderObj have p: "\<not> is_hook (reader.prompt r)" and b: "\<not> is_hook (before_line r)"
    by (simp_all add: text_only_def)
  from p b assms ReaderObj show ?thesis
    by (auto simp add: on_attach_def explain_lines_def Reader_explain_def send_Text Caller_def
        notify_def hook_lines_def is_hook_def Let_def split: option.splits text_or_hook.splits)
next
  case (YesOrNoObj y)
  with assms show ?thesis
    by (simp add: on_attach_def explain_lines_def YesOrNo_explain_def notify_def)
qed

text \<open>The assignment \<^verbatim>\<open>connection.parser = v\<close> when the new parser renders text only.\<close>

lemma setter_assigned:
  assumes "objects w (target w v) = Some b" and "text_only b"
  shows "Protocol_parser_setter env v w = (Inr (), assigned w v b)"
proof (cases v)
  case None
  with assms show ?thesis
    by (cases "protocol_parser w")
       (simp_all add: Protocol_parser_setter_def Let_def on_detach_def target_def
          on_attach_text_only [where b = b] assigned_def)
next
  case (Some p)
  with assms show ?thesis
    by (cases "protocol_parser w")
       (simp_all add: Protocol_parser_setter_def Let_def on_detach_def target_def
          on_attach_text_only [where b = b] assigned_def)
qed

lemma assigned_fields [simp]:
  "objects (assigned w v b) = objects w"
  "protocol_parser (assigned w v b) = Some (target w v)"
  "default_parser (assigned w v b) = default_parser w"
  "overloads (assigned w v b) = overloads w"
  by (simp_all add: assigned_def)

lemma truncate_fields [simp]:
  "abort_command (intercept.truncate i) = abort_command i"
  "aborted (intercept.truncate i) = aborted i"
  "no_abort (intercept.truncate i) = no_abort i"
  "restore_parser (intercept.truncate i) = restore_parser i"
  by (simp_all add: intercept.truncate_def)

lemma get_intercept_yes_or_no:
  "get_yes_or_no w self = Some y \<Longrightarrow> get_intercept w self = Some (intercept.truncate y)"
  by (auto simp add: get_yes_or_no_def get_intercept_def split: option.splits obj.splits)

lemma Intercept_huh_other:
  assumes "get_intercept w self = Some i" and "ctext c \<noteq> Some (abort_command i)"
  shows "Intercept_huh env self c w = (Inr False, c, w)"
  using assms by (simp add: Intercept_huh_def)

lemma Intercept_do_abort_plain:
  assumes "get_intercept w self = Some i"
    and "\<not> truthy (no_abort i)"
    and "aborted i = Text s"
    and "connection c = Some Conn"
    and "objects w (target w (restore_parser i)) = Some b"
    and "text_only b"
  shows "Intercept_do_abort env self c w =
           (Inr True, c, assigned (notify s w) (restore_parser i) b)"
proof -
  have g: "get_intercept (notify s w) self = Some i"
    using assms(1) by (simp add: get_intercept_def)
  have t: "objects (notify s w) (target (notify s w) (restore_parser i)) = Some b"
    using assms(5) by (simp add: target_def split: option.splits)
  show ?thesis
    using assms(1-4) g setter_assigned [OF t assms(6), of env]
    by (simp add: Intercept_do_abort_def send_Text)
qed

lemma ex_attached_eq:
  "text_only b \<Longrightarrow> ex_attached b = assigned (ex_world b) (Some 2) b"
  using setter_assigned [of "ex_world b" "Some 2" b ex_env]
  by (simp add: ex_attached_def target_def ex_world_def)

lemma ex_attached_fields:
  assumes "text_only b"
  shows "objects (ex_attached b) = [0 \<mapsto> ParserObj ex_base, 1 \<mapsto> ParserObj ex_base, 2 \<mapsto> b]"
    and "protocol_parser (ex_attached b) = Some 2"
    and "default_parser (ex_attached b) = 0"
  using assms by (simp_all add: ex_attached_eq target_def ex_world_def)

lemma ex_yes_or_no_fields:
  "abort_command (ex_yes_or_no n) = ''@abort''"
  "restore_parser (ex_yes_or_no n) = None"
  "yes (ex_yes_or_no n) = 8"
  "no (ex_yes_or_no n) = n"
  by (simp_all add: ex_yes_or_no_def YesOrNo_init_def Intercept_init_def Let_def
      intercept.extend_def parser.extend_def)


lemma loop_body_denied:
  "\<not> ok_for env cmd c w \<Longrightarrow> loop_body env self a cmd c n w = (Continue, c, n, w)"
  by (simp add: loop_body_def)


lemma for_commands_went_on:
  "went_on env self a l i k c n w = Some (c1, n1, w1) \<Longrightarrow>
   for_commands env self a l i c n w = for_commands env self a l (i + k) c1 n1 w1"
proof (induction k arbitrary: i c n w)
  case 0
  then show ?case by simp
next
  case (Suc k)
  from Suc.prems have i: "i < length (overloads w l)"
    by (simp split: if_splits)
  from Suc.prems i obtain c' n' w' where
    b: "loop_body env self a (overloads w l ! i) c n w = (Continue, c', n', w')"
    and r: "went_on env self a l (Suc i) k c' n' w' = Some (c1, n1, w1)"
    by (auto split: prod.splits control.splits)
  have "for_commands env self a l i c n w = for_commands env self a l (Suc i) c' n' w'"
    by (subst for_commands.simps) (simp add: i b)
  also have "\<dots> = for_commands env self a l (Suc i + k) c1 n1 w1"
    by (rule Suc.IH [OF r])
  finally show ?case by simp
qed

lemma went_on_one_more:
  "went_on env self a l i k c n w = Some (c1, n1, w1) \<Longrightarrow>
   i + k < length (overloads w1 l) \<Longrightarrow>
   loop_body env self a (overloads w1 l ! (i + k)) c1 n1 w1 = (Continue, c2, n2, w2) \<Longrightarrow>
   went_on env self a l i (Suc k) c n w = Some (c2, n2, w2)"
proof (induction k arbitrary: i c n w)
  case 0
  then show ?case by simp
next
  case (Suc k)
  from Suc.prems(1) have i: "i < length (overloads w l)"
    by (simp split: if_splits)
  from Suc.prems(1) i obtain c' n' w' where
    b: "loop_body env self a (overloads w l ! i) c n w = (Continue, c', n', w')"
    and r: "went_on env self a l (Suc i) k c' n' w' = Some (c1, n1, w1)"
    by (auto split: prod.splits control.splits)
  have "went_on env self a l (Suc i) (Suc k) c' n' w' = Some (c2, n2, w2)"
    using Suc.IH [OF r] Suc.prems(2,3) by simp
  then show ?case
    using i b by (simp del: went_on.simps(2) add: went_on.simps(2) [of _ _ _ _ i "Suc k"])
qed

lemma for_commands_stops:
  assumes "i < length (overloads w l)"
    and "loop_body env self a (overloads w l ! i) c n w = (Break, c1, n1, w1)"
  shows "for_commands env self a l i c n w = Some (Break, c1, n1, w1)"
  by (subst for_commands.simps) (simp add: assms)

lemma for_commands_all_denied:
  "\<forall>j < length (overloads w l). \<not> ok_for env (overloads w l ! j) c w \<Longrightarrow>
   for_commands env self a l i c n w = Some (Continue, c, n, w)"
proof (induction "length (overloads w l) - i" arbitrary: i)
  case 0
  then show ?case by (subst for_commands.simps) simp
next
  case (Suc d)
  then have i: "i < length (overloads w l)" by simp
  have b: "loop_body env self a (overloads w l ! i) c n w = (Continue, c, n, w)"
    using Suc.prems i by (simp add: loop_body_denied)
  have "for_commands env self a l (Suc i) c n w = Some (Continue, c, n, w)"
    using Suc.hyps(2) Suc.prems by (intro Suc.hyps(1)) simp_all
  then show ?case
    by (subst for_commands.simps) (simp add: i b)
qed


lemma ex_parser_fields:
  "command_separator ex_parser = '' ''"
  "command_substitutions ex_parser = [(''!'', ''go'')]"
  "get_commands ex_parser ''go'' = Some 7"
  "get_commands ex_parser ''look'' = None"
  "Parser_split ex_parser ''go north'' = Inr (''go'', ''north'')"
  "Parser_split ex_parser ''go'' = Inr (''go'', [])"
  "Parser_split ex_parser ''look'' = Inr (''look'', [])"
  "substitute ex_parser ''!north'' = ''go north''"
  "substitute ex_parser ''go'' = ''go''"
  "substitute ex_parser ''go north'' = ''go north''"
  "substitute ex_parser ''look'' = ''look''"
  by (simp_all add: Parser_split_def substitute_def ex_parser_def Parser_init_def get_commands_def)

lemma ex_command_fields:
  "func (ex_command f rx al) = f"
  "names (ex_command f rx al) = [''go'']"
  "description (ex_command f rx al) = ''Go somewhere.''"
  "help_text (ex_command f rx al) = ''go <where>''"
  "args_regexp (ex_command f rx al) = rx"
  "allowed (ex_command f rx al) = al"
  by (simp_all add: ex_command_def)

lemma ex_dispatch_fields:
  "objects (ex_dispatch cmds) 2 = Some (ParserObj ex_parser)"
  "get_parser (ex_dispatch cmds) 2 = Some ex_parser"
  "protocol_parser (ex_dispatch cmds) = Some 2"
  "overloads (ex_dispatch cmds) 7 = cmds"
  by (simp_all add: ex_dispatch_def ex_attached_fields text_only_def get_parser_def)



lemma ex_report_current:
  "protocol_parser w = Some 2 \<Longrightarrow> ex_report 5 w = ''callable 5 sees parser 2''"
  "protocol_parser w = Some 2 \<Longrightarrow> ex_report 6 w = ''callable 6 sees parser 2''"
proof -
  have "show_nat 5 = ''5''" "show_nat 6 = ''6''" "show_nat 2 = ''2''" by code_simp+
  then show "protocol_parser w = Some 2 \<Longrightarrow> ex_report 5 w = ''callable 5 sees parser 2''"
    "protocol_parser w = Some 2 \<Longrightarrow> ex_report 6 w = ''callable 6 sees parser 2''"
    by (simp_all add: ex_report_def)
qed

lemma get_intercept_menu:
  "get_menu w self = Some m \<Longrightarrow> get_intercept w self = Some (intercept.truncate m)"
  by (auto simp add: get_menu_def get_intercept_def split: option.splits obj.splits)

lemma py_index_last: "xs \<noteq> [] \<Longrightarrow> py_index xs (- 1) = Some (last xs)"
  by (cases xs rule: rev_cases) (simp_all add: py_index_def Let_def nat_diff_distrib)

lemma py_index_positive:
  "0 < n \<Longrightarrow> n \<le> int (length xs) \<Longrightarrow> py_index xs (n - 1) = Some (xs ! nat (n - 1))"
  by (simp add: py_index_def Let_def)

lemma py_index_raw:
  "n \<le> 0 \<Longrightarrow> - int (length xs) \<le> n \<Longrightarrow> xs \<noteq> [] \<Longrightarrow>
   py_index xs n = Some (xs ! nat (if n < 0 then int (length xs) + n else 0))"
  by (auto simp add: py_index_def Let_def)

lemma Menu_match_prefix:
  assumes "get_menu w self = Some m" and "ctext c = Some t0" and "t0 \<noteq> []"
    and "lower t0 \<noteq> ''$''" and "indexed (int_max_str_digits env) (items m) (lower t0) = None"
  shows "Menu_match env self c w =
           (let found = filter (\<lambda>item. prefix (lower t0) (lower (item_text item))) (items m)
            in if found = [] then
                 unmatched (case no_matches m of
                              None \<Rightarrow> Menu_no_matches env self c w
                            | Some f \<Rightarrow> funcs env f c w)
               else if length found = 1 then (Inr (Some (hd found)), c, w)
               else unmatched (case multiple_matches m of
                                 None \<Rightarrow> Menu_multiple_matches env self c found w
                               | Some f \<Rightarrow> funcs2 env f c found w))"
proof -
  have l: "lower t0 \<noteq> []" using assms(3) by (simp add: lower_def)
  show ?thesis
    using assms l
    by (simp add: Menu_match_def Let_def unmatched_def split: prod.splits sum.splits)
qed

lemma ex_env_limit [simp]: "int_max_str_digits ex_env = 4300"
  by (simp add: ex_env_def)

lemma ex_menu_fields:
  "abort_command (ex_menu its) = ''@abort''"
  "restore_parser (ex_menu its) = None"
  "no_matches (ex_menu its) = None"
  "multiple_matches (ex_menu its) = None"
  "menu.prompt (ex_menu its) = Text ''Type a number or @abort to abort.''"
  "persistent (ex_menu its) = False"
  "labels (ex_menu its) = []"
  by (simp_all add: ex_menu_def Menu_init_def Intercept_init_def intercept.extend_def
      parser.extend_def)

lemma ex_menu_world_fields:
  "get_menu (ex_menu_world its) 2 = Some (ex_menu its)"
  "protocol_parser (ex_menu_world its) = Some 2"
  "default_parser (ex_menu_world its) = 0"
  by (simp_all add: ex_menu_world_def ex_attached_fields text_only_def is_hook_def ex_menu_fields
      get_menu_def)

lemma ex_fruit_items:
  "items (ex_menu ex_fruit) =
     [\<lparr>item_id = 1, item_text = ''Apple'', item_func = 11, index = 1\<rparr>,
      \<lparr>item_id = 2, item_text = ''Apricot'', item_func = 12, index = 2\<rparr>,
      \<lparr>item_id = 3, item_text = ''Banana'', item_func = 13, index = 3\<rparr>]"
  by code_simp

lemma get_intercept_reader:
  "get_reader w self = Some r \<Longrightarrow> get_intercept w self = Some (intercept.truncate r)"
  by (auto simp add: get_reader_def get_intercept_def split: option.splits obj.splits)

lemma get_reader_objects:
  "get_reader w self = Some r \<longleftrightarrow> objects w self = Some (ReaderObj r)"
  by (auto simp add: get_reader_def split: option.splits obj.splits)

lemma new_buffer_line:
  "new_buffer r (Some l) (Some l) =
     (if multiline r \<and> l = done_command r then buffer r else appended r l)"
  by (auto simp add: new_buffer_def appended_def nonempty_def)

lemma send_hook_lines:
  assumes "\<not> is_hook h" and "connection c = Some Conn"
  shows "(case h of None \<Rightarrow> (Inr (), c, w) | Some a \<Rightarrow> send env a c w) =
           (Inr (), c, w\<lparr>trace := trace w @ map Sent (hook_lines h)\<rparr>)"
  using assms
  by (auto simp add: is_hook_def hook_lines_def send_Text notify_def
      split: option.splits text_or_hook.splits)

lemma Reader_huh_line:
  assumes g: "get_reader w self = Some r"
    and t: "ctext c = Some l" and con: "connection c = Some Conn"
    and na: "l \<noteq> abort_command r" and ns: "l \<noteq> spell_check_command r"
    and ha: "\<not> is_hook (after_line r)" and hb: "\<not> is_hook (before_line r)"
  shows "multiline r \<and> l \<noteq> done_command r \<Longrightarrow>
           Reader_huh env self c w =
             (Inr False, c\<lparr>ctext := Some (appended r l)\<rparr>,
              w\<lparr>objects := (objects w)(self \<mapsto> ReaderObj (r\<lparr>buffer := appended r l\<rparr>)),
                trace := trace w @ line_events r\<rparr>)"
    and "\<not> multiline r \<or> l = done_command r \<Longrightarrow>
         objects w (target w (restore_parser r)) = Some tb \<Longrightarrow> text_only tb \<Longrightarrow>
         target w (restore_parser r) \<noteq> self \<Longrightarrow>
           Reader_huh env self c w =
             completed env self r (if multiline r then buffer r else appended r l) c
               (w\<lparr>trace := trace w @ map Sent (hook_lines (after_line r))\<rparr>) tb"
proof -
  let ?w0 = "w\<lparr>trace := trace w @ map Sent (hook_lines (after_line r))\<rparr>"
  have a: "(case after_line r of None \<Rightarrow> (Inr (), c, w) | Some a \<Rightarrow> send env a c w) =
             (Inr (), c, ?w0)"
    by (rule send_hook_lines [OF ha con])
  have g0: "get_reader ?w0 self = Some r" using g by (simp add: get_reader_def)
  have i: "Intercept_huh env self c ?w0 = (Inr False, c, ?w0)"
    using Intercept_huh_other [OF get_intercept_reader [OF g0]] t na by simp
  show "Reader_huh env self c w =
             (Inr False, c\<lparr>ctext := Some (appended r l)\<rparr>,
              w\<lparr>objects := (objects w)(self \<mapsto> ReaderObj (r\<lparr>buffer := appended r l\<rparr>)),
                trace := trace w @ line_events r\<rparr>)"
    if m: "multiline r \<and> l \<noteq> done_command r"
  proof -
    have hbc: "before_line r = None \<or> (\<exists>s. before_line r = Some (Text s))"
      using hb by (auto simp add: is_hook_def split: option.splits text_or_hook.splits)
    show ?thesis
      using g a i g0 t con ns m hbc
      by (auto simp add: Reader_huh_def Let_def new_buffer_line line_events_def
          hook_lines_def send_Text notify_def)
  qed
  show "Reader_huh env self c w =
             completed env self r (if multiline r then buffer r else appended r l) c ?w0 tb"
    if m: "\<not> multiline r \<or> l = done_command r"
      and tg: "objects w (target w (restore_parser r)) = Some tb" "text_only tb"
        "target w (restore_parser r) \<noteq> self"
  proof -
    let ?b = "if multiline r then buffer r else appended r l"
    let ?w1 = "?w0\<lparr>objects := (objects ?w0)(self \<mapsto> ReaderObj (r\<lparr>buffer := ?b\<rparr>))\<rparr>"
    have nb: "new_buffer r (Some l) (Some l) = ?b"
      using m by (auto simp add: new_buffer_line)
    have tt: "objects ?w1 (target ?w1 (restore_parser r)) = Some tb"
      using tg by (simp add: target_def split: option.splits)
    have s: "Protocol_parser_setter env (restore_parser r) ?w1 =
               (Inr (), assigned ?w1 (restore_parser r) tb)"
      by (rule setter_assigned [OF tt tg(2)])
    have g4: "get_reader (assigned ?w1 (restore_parser r) tb) self = Some (r\<lparr>buffer := ?b\<rparr>)"
      by (simp add: get_reader_def)
    show ?thesis
      using g a i g0 t con ns m nb s g4
      by (simp add: Reader_huh_def Let_def completed_def answered_def
          split: option.splits prod.splits sum.splits)
  qed
qed

lemma join_appended:
  "join (line_separator r) (filter (\<lambda>l. l \<noteq> []) (appended r l # ls)) =
   join (line_separator r) (filter (\<lambda>l. l \<noteq> []) (buffer r # l # ls))"
proof -
  have j: "join sep ((x @ sep @ y) # ys) = x @ sep @ join sep (y # ys)" for sep x y ys
    by (cases ys) simp_all
  show ?thesis
    by (simp add: appended_def j)
qed

lemma feed_lines_accumulates:
  assumes "get_reader w self = Some r" and "multiline r"
    and "\<forall>l \<in> set ls. l \<noteq> abort_command r \<and> l \<noteq> spell_check_command r \<and> l \<noteq> done_command r"
    and "\<not> is_hook (after_line r)" and "\<not> is_hook (before_line r)"
  shows "feed_lines env self ls w =
           w\<lparr>objects := (objects w)(self \<mapsto> ReaderObj
                 (r\<lparr>buffer := join (line_separator r) (filter (\<lambda>l. l \<noteq> []) (buffer r # ls))\<rparr>)),
             trace := trace w @ concat (map (\<lambda>l. line_events r) ls)\<rparr>"
  using assms
proof (induction ls arbitrary: w r)
  case Nil
  have o: "(objects w)(self \<mapsto> ReaderObj r) = objects w"
    using Nil.prems(1) by (auto simp add: get_reader_objects)
  have b: "join (line_separator r) (filter (\<lambda>l. l \<noteq> []) [buffer r]) = buffer r"
    by simp
  have r: "r\<lparr>buffer := buffer r\<rparr> = r" by simp
  show ?case
    unfolding feed_lines.simps b r o by simp
next
  case (Cons l ls)
  let ?r1 = "r\<lparr>buffer := appended r l\<rparr>"
  let ?w1 = "w\<lparr>objects := (objects w)(self \<mapsto> ReaderObj ?r1), trace := trace w @ line_events r\<rparr>"
  have step: "Reader_huh env self (Caller (Some Conn) (Some l)) w =
                (Inr False, (Caller (Some Conn) (Some l))\<lparr>ctext := Some (appended r l)\<rparr>, ?w1)"
    using Reader_huh_line(1) [OF Cons.prems(1), of "Caller (Some Conn) (Some l)" l env]
      Cons.prems(2,3,4,5)
    by (simp add: Caller_def)
  have g1: "get_reader ?w1 self = Some ?r1" by (simp add: get_reader_def)
  have m1: "multiline ?r1" using Cons.prems(2) by simp
  have l1: "\<forall>l \<in> set ls. l \<noteq> abort_command ?r1 \<and> l \<noteq> spell_check_command ?r1 \<and>
                           l \<noteq> done_command ?r1"
    using Cons.prems(3) by simp
  have a1: "\<not> is_hook (after_line ?r1)" using Cons.prems(4) by simp
  have b1: "\<not> is_hook (before_line ?r1)" using Cons.prems(5) by simp
  note ih = Cons.IH [OF g1 m1 l1 a1 b1]
  have le: "line_events ?r1 = line_events r" by (simp add: line_events_def)
  have jb: "join (line_separator ?r1) (filter (\<lambda>l. l \<noteq> []) (buffer ?r1 # ls)) =
            join (line_separator r) (filter (\<lambda>l. l \<noteq> []) (buffer r # l # ls))"
    using join_appended [of r l ls] by (simp del: filter.simps)
  have "feed_lines env self (l # ls) w = feed_lines env self ls ?w1"
    by (simp add: step)
  also note ih
  finally have F: "feed_lines env self (l # ls) w =
      ?w1\<lparr>objects := (objects ?w1)(self \<mapsto> ReaderObj
             (?r1\<lparr>buffer := join (line_separator ?r1)
                                (filter (\<lambda>l. l \<noteq> []) (buffer ?r1 # ls))\<rparr>)),
          trace := trace ?w1 @ concat (map (\<lambda>l. line_events ?r1) ls)\<rparr>" .
  have u: "(objects ?w1)(self \<mapsto> x) = (objects w)(self \<mapsto> x)" for x
    by simp
  show ?case
    unfolding F jb le u by (simp del: filter.simps add: fun_upd_def)
qed

lemma ex_reader_fields:
  "abort_command (ex_reader multi) = ''@abort''"
  "restore_parser (ex_reader multi) = None"
  "spell_check_command (ex_reader multi) = ''.spell''"
  "done_command (ex_reader multi) = ''.''"
  "line_separator (ex_reader multi) = ''\<newline>''"
  "multiline (ex_reader multi) = multi"
  "after_line (ex_reader multi) = None"
  "before_line (ex_reader multi) = None"
  "reader.prompt (ex_reader multi) = None"
  "buffer (ex_reader multi) = []"
  "done_cb (ex_reader multi) = Some 7"
  by (simp_all add: ex_reader_def Intercept_init_def intercept.extend_def parser.extend_def)

lemma ex_reader_world_fields:
  "get_reader (ex_reader_world multi) 2 = Some (ex_reader multi)"
  "objects (ex_reader_world multi) 0 = Some (ParserObj ex_base)"
  "protocol_parser (ex_reader_world multi) = Some 2"
  "default_parser (ex_reader_world multi) = 0"
  by (simp_all add: ex_reader_world_def ex_attached_fields text_only_def is_hook_def
      ex_reader_fields get_reader_def)

lemma ex_report_default: "protocol_parser w = Some 0 \<Longrightarrow> ex_report 7 w = ''callable 7 sees parser 0''"
proof -
  have "show_nat 7 = ''7''" "show_nat 0 = ''0''" by code_simp+
  then show "protocol_parser w = Some 0 \<Longrightarrow> ex_report 7 w = ''callable 7 sees parser 0''"
    by (simp add: ex_report_def)
qed

section \<open>Assigning no dispatcher\<close>

text \<open>
  Claim C5.  On a connection whose current dispatcher is \<open>P\<close>, assigning \<^verbatim>\<open>None\<close> makes
  the server's default parser current: the detach hook of \<open>P\<close> is called (with
  \<^verbatim>\<open>None\<close>), a warning is logged, the attach hook of the default parser is called with
  \<open>P\<close>, and the connection has a dispatcher afterwards.  The default parser may be of any
  class whose rendering is text.
\<close>

theorem C5_null_dispatcher_falls_back:
  assumes "protocol_parser w = Some P"
    and "objects w (default_parser w) = Some b"
    and "text_only b"
  shows "Protocol_parser_setter env None w =
           (Inr (),
            w\<lparr>protocol_parser := Some (default_parser w),
              trace := trace w @
                [OnDetach P None, WarnParserNone (default_parser w),
                 Printed (default_parser w), OnAttach (default_parser w) (Some P)] @
                map Sent (explain_lines b)\<rparr>)"
  using assms setter_assigned [of w None b env] by (simp add: target_def assigned_def)

theorem C5_null_dispatcher_falls_back_witness:
  "protocol_parser (ex_world (ParserObj ex_base)) = Some 1 \<and>
   objects (ex_world (ParserObj ex_base)) (default_parser (ex_world (ParserObj ex_base))) =
     Some (ParserObj ex_base) \<and>
   text_only (ParserObj ex_base) \<and>
   Protocol_parser_setter ex_env None (ex_world (ParserObj ex_base)) =
     (Inr (),
      (ex_world (ParserObj ex_base))
        \<lparr>protocol_parser := Some 0,
         trace := [OnDetach 1 None, WarnParserNone 0, Printed 0, OnAttach 0 (Some 1)]\<rparr>)"
proof -
  have h1: "protocol_parser (ex_world (ParserObj ex_base)) = Some 1"
    by (simp add: ex_world_def)
  have h2: "objects (ex_world (ParserObj ex_base)) (default_parser (ex_world (ParserObj ex_base))) =
              Some (ParserObj ex_base)"
    by (simp add: ex_world_def)
  have h3: "text_only (ParserObj ex_base)"
    by (simp add: text_only_def)
  show ?thesis
    using h1 h2 h3 C5_null_dispatcher_falls_back [OF h1 h2 h3, of ex_env]
    by (simp add: explain_lines_def ex_world_def)
qed


section \<open>Where an abort leads\<close>

text \<open>
  Claim C2, as the code has it.  Attaching an \<^verbatim>\<open>Intercept\<close> (of any class derived from
  it whose rendering is text) leaves its fields as they were, \<^verbatim>\<open>restore_parser\<close>
  included: the attach hook only renders.  A successful abort (the line is the abort
  command, no suppression is configured, the notice is a string) then assigns
  \<^verbatim>\<open>restore_parser\<close> to the connection, so the current dispatcher becomes
  \<^verbatim>\<open>restore_parser\<close> when it is set and the server's default parser when it is
  \<^verbatim>\<open>None\<close>.
\<close>

theorem C2_abort_assigns_restore_parser:
  assumes "objects w self = Some ob" and "text_only ob"
    and "get_intercept w self = Some i"
    and "\<not> truthy (no_abort i)" and "aborted i = Text s"
    and "ctext c = Some (abort_command i)" and "connection c = Some Conn"
    and "objects w (target w (restore_parser i)) = Some b" and "text_only b"
  shows "Protocol_parser_setter env (Some self) w = (Inr (), assigned w (Some self) ob) \<and>
         get_intercept (assigned w (Some self) ob) self = Some i \<and>
         Intercept_huh env self c (assigned w (Some self) ob) =
           (Inr True, c,
            assigned (notify s (assigned w (Some self) ob)) (restore_parser i) b) \<and>
         protocol_parser (assigned (notify s (assigned w (Some self) ob)) (restore_parser i) b) =
           Some (case restore_parser i of None \<Rightarrow> default_parser w | Some p \<Rightarrow> p)"
proof -
  let ?w1 = "assigned w (Some self) ob"
  have a: "Protocol_parser_setter env (Some self) w = (Inr (), ?w1)"
    using setter_assigned [of w "Some self" ob env] assms(1,2) by (simp add: target_def)
  have g: "get_intercept ?w1 self = Some i"
    using assms(3) by (simp add: get_intercept_def)
  have t: "objects ?w1 (target ?w1 (restore_parser i)) = Some b"
    using assms(8) by (simp add: target_def split: option.splits)
  have h: "Intercept_huh env self c ?w1 = (Inr True, c, assigned (notify s ?w1) (restore_parser i) b)"
    using g assms(6) Intercept_do_abort_plain [OF g assms(4,5,7) t assms(9), of env]
    by (simp add: Intercept_huh_def)
  have p: "protocol_parser (assigned (notify s ?w1) (restore_parser i) b) =
             Some (case restore_parser i of None \<Rightarrow> default_parser w | Some p \<Rightarrow> p)"
    by (simp add: target_def split: option.splits)
  from a g h p show ?thesis by simp
qed


theorem C2_abort_assigns_restore_parser_witness:
  "objects (ex_world (InterceptObj ex_intercept)) 2 = Some (InterceptObj ex_intercept) \<and>
   text_only (InterceptObj ex_intercept) \<and>
   get_intercept (ex_world (InterceptObj ex_intercept)) 2 = Some ex_intercept \<and>
   \<not> truthy (no_abort ex_intercept) \<and> aborted ex_intercept = Text ''Aborted'' \<and>
   ctext (Caller (Some Conn) (Some ''@abort'')) = Some (abort_command ex_intercept) \<and>
   connection (Caller (Some Conn) (Some ''@abort'')) = Some Conn \<and>
   objects (ex_world (InterceptObj ex_intercept))
     (target (ex_world (InterceptObj ex_intercept)) (restore_parser ex_intercept)) =
     Some (ParserObj ex_base) \<and>
   text_only (ParserObj ex_base) \<and>
   protocol_parser
     (snd (snd (Intercept_huh ex_env 2 (Caller (Some Conn) (Some ''@abort''))
                  (assigned (ex_world (InterceptObj ex_intercept)) (Some 2)
                     (InterceptObj ex_intercept))))) = Some 0"
proof -
  let ?w = "ex_world (InterceptObj ex_intercept)"
  let ?c = "Caller (Some Conn) (Some ''@abort'')"
  have r: "restore_parser ex_intercept = None" "no_abort ex_intercept = None"
    "aborted ex_intercept = Text ''Aborted''" "abort_command ex_intercept = ''@abort''"
    by (simp_all add: ex_intercept_def Intercept_init_def parser.extend_def)
  have h1: "objects ?w 2 = Some (InterceptObj ex_intercept)" by (simp add: ex_world_def)
  have h2: "text_only (InterceptObj ex_intercept)" by (simp add: text_only_def)
  have h3: "get_intercept ?w 2 = Some ex_intercept" by (simp add: get_intercept_def ex_world_def)
  have h4: "\<not> truthy (no_abort ex_intercept)" by (simp add: r truthy_def)
  have h5: "aborted ex_intercept = Text ''Aborted''" by (simp add: r)
  have h6: "ctext ?c = Some (abort_command ex_intercept)" by (simp add: r Caller_def)
  have h7: "connection ?c = Some Conn" by (simp add: Caller_def)
  have h8: "objects ?w (target ?w (restore_parser ex_intercept)) = Some (ParserObj ex_base)"
    by (simp add: r target_def ex_world_def)
  have h9: "text_only (ParserObj ex_base)" by (simp add: text_only_def)
  show ?thesis
    using h1 h2 h3 h4 h5 h6 h7 h8 h9
      C2_abort_assigns_restore_parser [OF h1 h2 h3 h4 h5 h6 h7 h8 h9, of ex_env]
    by (simp add: r ex_world_def)
qed


text \<open>
  The claim as written fails: object 2, built by \<^verbatim>\<open>Intercept.__init__\<close>, is attached
  while parser 1 is current; its \<^verbatim>\<open>restore_parser\<close> is still \<^verbatim>\<open>None\<close> afterwards, and
  the abort makes the default parser 0 current, not the predecessor 1.
\<close>

theorem C2_restore_parser_not_captured:
  "protocol_parser (ex_world (InterceptObj ex_intercept)) = Some 1 \<and>
   protocol_parser (ex_attached (InterceptObj ex_intercept)) = Some 2 \<and>
   map_option restore_parser (get_intercept (ex_attached (InterceptObj ex_intercept)) 2) = Some None \<and>
   protocol_parser
     (snd (snd (Intercept_huh ex_env 2 (Caller (Some Conn) (Some ''@abort''))
                  (ex_attached (InterceptObj ex_intercept))))) = Some 0"
  by code_simp



section \<open>\<^verbatim>\<open>YesOrNo\<close>: answers\<close>

text \<open>
  Claim C8, as the code has it.  On a non-empty line that is not the abort command,
  \<^verbatim>\<open>YesOrNo.huh\<close> first assigns its \<^verbatim>\<open>restore_parser\<close> to the connection (the current
  dispatcher becomes \<^verbatim>\<open>restore_parser\<close>, or the server's default parser when it is
  \<^verbatim>\<open>None\<close>) and only then, in the world after that assignment, calls the yes-callback when
  the lower-cased line starts with \<^verbatim>\<open>y\<close>, and otherwise the no-callback if there is one,
  else the abort flow.
\<close>

theorem C8_yes_or_no_answer:
  assumes "get_yes_or_no w self = Some y"
    and "ctext c = Some t" and "t \<noteq> []" and "t \<noteq> abort_command y"
    and "connection c = Some Conn"
    and "objects w (target w (restore_parser y)) = Some b" and "text_only b"
  shows "YesOrNo_huh env self c w =
           (if prefix ''y'' (lower t)
            then answered (funcs env (yes y) c (assigned w (restore_parser y) b))
            else (case no y of
                    Some f \<Rightarrow> answered (funcs env f c (assigned w (restore_parser y) b))
                  | None \<Rightarrow>
                      answered (Intercept_do_abort env self c (assigned w (restore_parser y) b))))
         \<and> protocol_parser (assigned w (restore_parser y) b) =
             Some (case restore_parser y of None \<Rightarrow> default_parser w | Some p \<Rightarrow> p)"
proof -
  have i: "Intercept_huh env self c w = (Inr False, c, w)"
    using Intercept_huh_other [OF get_intercept_yes_or_no [OF assms(1)]] assms(2,4) by simp
  have s: "Protocol_parser_setter env (restore_parser y) w = (Inr (), assigned w (restore_parser y) b)"
    by (rule setter_assigned [OF assms(6,7)])
  have g: "get_yes_or_no (assigned w (restore_parser y) b) self = Some y"
    using assms(1) by (simp add: get_yes_or_no_def)
  show ?thesis
    using assms(1,2,3,5) i s g
    by (auto simp add: YesOrNo_huh_def answered_def target_def
        split: prod.splits sum.splits option.splits)
qed

theorem C8_yes_or_no_answer_witness:
  "get_yes_or_no (ex_attached (YesOrNoObj (ex_yes_or_no (Some 9)))) 2 = Some (ex_yes_or_no (Some 9)) \<and>
   ctext (Caller (Some Conn) (Some ''nope'')) = Some ''nope'' \<and>
   ''nope'' \<noteq> [] \<and> ''nope'' \<noteq> abort_command (ex_yes_or_no (Some 9)) \<and>
   connection (Caller (Some Conn) (Some ''nope'')) = Some Conn \<and>
   objects (ex_attached (YesOrNoObj (ex_yes_or_no (Some 9))))
     (target (ex_attached (YesOrNoObj (ex_yes_or_no (Some 9))))
        (restore_parser (ex_yes_or_no (Some 9)))) = Some (ParserObj ex_base) \<and>
   text_only (ParserObj ex_base) \<and>
   YesOrNo_huh ex_env 2 (Caller (Some Conn) (Some ''nope''))
       (ex_attached (YesOrNoObj (ex_yes_or_no (Some 9)))) =
     (Inr True, Caller (Some Conn) (Some ''nope''),
      notify ''callable 9 sees parser 0''
        (assigned (ex_attached (YesOrNoObj (ex_yes_or_no (Some 9)))) None (ParserObj ex_base)))"
proof -
  let ?y = "ex_yes_or_no (Some 9)"
  let ?w = "ex_attached (YesOrNoObj ?y)"
  let ?c = "Caller (Some Conn) (Some ''nope'')"
  have t: "text_only (YesOrNoObj ?y)" by (simp add: text_only_def)
  have h1: "get_yes_or_no ?w 2 = Some ?y"
    by (simp add: get_yes_or_no_def ex_attached_fields [OF t])
  have h2: "ctext ?c = Some ''nope''" by (simp add: Caller_def)
  have h3: "''nope'' \<noteq> []" by simp
  have h4: "''nope'' \<noteq> abort_command ?y" by (simp add: ex_yes_or_no_fields)
  have h5: "connection ?c = Some Conn" by (simp add: Caller_def)
  have h6: "objects ?w (target ?w (restore_parser ?y)) = Some (ParserObj ex_base)"
    by (simp add: ex_yes_or_no_fields target_def ex_attached_fields [OF t])
  have h7: "text_only (ParserObj ex_base)" by (simp add: text_only_def)
  have l: "\<not> prefix ''y'' (lower ''nope'')" by code_simp
  have r: "ex_report 9 (assigned ?w None (ParserObj ex_base)) = ''callable 9 sees parser 0''"
    by code_simp
  show ?thesis
    using h1 h2 h3 h4 h5 h6 h7 C8_yes_or_no_answer [OF h1 h2 h3 h4 h5 h6 h7, of ex_env]
    by (simp add: l r ex_yes_or_no_fields answered_def ex_env_def)
qed

text \<open>
  The claim as written fails where it says that the prior dispatcher is restored: the
  prompt is attached while parser 1 is current, the answer is \<^verbatim>\<open>Yes please\<close>, and the
  yes-callback runs with the default parser 0 current, not parser 1.
\<close>

theorem C8_prior_dispatcher_not_restored:
  "protocol_parser (ex_world (YesOrNoObj (ex_yes_or_no None))) = Some 1 \<and>
   protocol_parser (ex_attached (YesOrNoObj (ex_yes_or_no None))) = Some 2 \<and>
   fst (YesOrNo_huh ex_env 2 (Caller (Some Conn) (Some ''Yes please''))
          (ex_attached (YesOrNoObj (ex_yes_or_no None)))) = Inr True \<and>
   protocol_parser
     (snd (snd (YesOrNo_huh ex_env 2 (Caller (Some Conn) (Some ''Yes please''))
                  (ex_attached (YesOrNoObj (ex_yes_or_no None)))))) = Some 0 \<and>
   last (trace
     (snd (snd (YesOrNo_huh ex_env 2 (Caller (Some Conn) (Some ''Yes please''))
                  (ex_attached (YesOrNoObj (ex_yes_or_no None))))))) =
     Sent ''callable 8 sees parser 0''"
  by code_simp

section \<open>\<^verbatim>\<open>YesOrNo\<close>: the empty line\<close>

text \<open>
  Claim C10.  When the abort command is not the empty string, \<^verbatim>\<open>YesOrNo.huh\<close> on an empty
  line returns the world as it was: the dispatcher is unchanged, nothing is sent and no
  callback runs (the caller is unchanged too).  The constructor always sets the abort
  command to \<^verbatim>\<open>@abort\<close>.
\<close>

theorem C10_empty_line_ignored:
  assumes "get_yes_or_no w self = Some y"
    and "abort_command y \<noteq> []"
    and "ctext c = Some []"
  shows "YesOrNo_huh env self c w = (Inr False, c, w) \<and>
         abort_command (YesOrNo_init base q yf nf pr) = ''@abort''"
  using assms get_intercept_yes_or_no [OF assms(1)]
  by (simp add: YesOrNo_huh_def Intercept_huh_def YesOrNo_init_def Intercept_init_def Let_def
      intercept.extend_def parser.extend_def)

theorem C10_empty_line_ignored_witness:
  "get_yes_or_no (ex_attached (YesOrNoObj (ex_yes_or_no None))) 2 = Some (ex_yes_or_no None) \<and>
   abort_command (ex_yes_or_no None) \<noteq> [] \<and>
   ctext (Caller (Some Conn) (Some [])) = Some [] \<and>
   YesOrNo_huh ex_env 2 (Caller (Some Conn) (Some []))
       (ex_attached (YesOrNoObj (ex_yes_or_no None))) =
     (Inr False, Caller (Some Conn) (Some []), ex_attached (YesOrNoObj (ex_yes_or_no None)))"
proof -
  have t: "text_only (YesOrNoObj (ex_yes_or_no None))" by (simp add: text_only_def)
  have h1: "get_yes_or_no (ex_attached (YesOrNoObj (ex_yes_or_no None))) 2 =
              Some (ex_yes_or_no None)"
    by (simp add: get_yes_or_no_def ex_attached_fields [OF t])
  have h2: "abort_command (ex_yes_or_no None) \<noteq> []" by (simp add: ex_yes_or_no_fields)
  have h3: "ctext (Caller (Some Conn) (Some [])) = Some []" by (simp add: Caller_def)
  show ?thesis
    using h1 h2 h3 C10_empty_line_ignored [OF h1 h2 h3, of ex_env] by simp
qed


section \<open>Dispatch: an argument pattern that does not match\<close>




section \<open>Dispatch: permissions and unknown commands\<close>

text \<open>
  Claim C4.  Let the loop reach position \<open>k\<close> and the permission of that overload reject
  the caller.  Then the loop reaches position \<open>k + 1\<close> in the very same state (nothing was
  sent), and the next overload is attempted: if its permission passes, it has no pattern
  and its handler returns, \<^verbatim>\<open>handle_line\<close> ends in the state the handler left and counts
  it.  When the name has no overloads, or every overload rejects the caller,
  \<^verbatim>\<open>handle_line\<close> calls \<^verbatim>\<open>huh\<close> and returns \<^verbatim>\<open>None\<close>; on an object of class
  \<^verbatim>\<open>Parser\<close> that hook sends the notice.
\<close>

theorem C4_permission_skip_and_unrecognized:
  assumes "get_parser w self = Some p"
    and "Parser_split p (substitute p line) = Inr (name, a)"
    and "c0 = (Caller (Some Conn) (Some (substitute p line)))\<lparr>command := name, args_str := a\<rparr>"
  shows "(get_commands p name = Some l \<and>
          went_on env self a l 0 k c0 0 w = Some (c1, n1, w1) \<and>
          k < length (overloads w1 l) \<and> \<not> ok_for env (overloads w1 l ! k) c1 w1 \<longrightarrow>
            went_on env self a l 0 (Suc k) c0 0 w = Some (c1, n1, w1) \<and>
            (Suc k < length (overloads w1 l) \<and> ok_for env (overloads w1 l ! Suc k) c1 w1 \<and>
             args_regexp (overloads w1 l ! Suc k) = None \<and>
             funcs env (func (overloads w1 l ! Suc k)) (c1\<lparr>args := [], kwargs := []\<rparr>) w1 =
               (Inr (), c2, w2) \<longrightarrow>
               handle_line env self line w = Some (Inr (Some (n1 + 1)), w2))) \<and>
         (get_commands p name = None \<or>
          get_commands p name = Some l \<and>
          (\<forall>j < length (overloads w l). \<not> ok_for env (overloads w l ! j) c0 w) \<longrightarrow>
            handle_line env self line w =
              Some (case huh env self c0 w of
                      (Inl e, c2, w2) \<Rightarrow> (Inl e, w2)
                    | (Inr r, c2, w2) \<Rightarrow> (Inr None, w2)) \<and>
            (\<forall>q. objects w self = Some (ParserObj q) \<longrightarrow>
               huh env self c0 w = (Inr True, c0, notify ''I don't understand that.'' w) \<and>
               handle_line env self line w = Some (Inr None, notify ''I don't understand that.'' w)))"
proof -
  have skip: "went_on env self a l 0 (Suc k) c0 0 w = Some (c1, n1, w1)"
    if "went_on env self a l 0 k c0 0 w = Some (c1, n1, w1)" "k < length (overloads w1 l)"
      "\<not> ok_for env (overloads w1 l ! k) c1 w1"
    using went_on_one_more [OF that(1), of c1 n1 w1] that(2,3)
    by (simp add: loop_body_denied)
  have next_one: "handle_line env self line w = Some (Inr (Some (n1 + 1)), w2)"
    if g: "get_commands p name = Some l"
      and s: "went_on env self a l 0 (Suc k) c0 0 w = Some (c1, n1, w1)"
      and i: "Suc k < length (overloads w1 l)"
      and o: "ok_for env (overloads w1 l ! Suc k) c1 w1"
      and r: "args_regexp (overloads w1 l ! Suc k) = None"
      and f: "funcs env (func (overloads w1 l ! Suc k)) (c1\<lparr>args := [], kwargs := []\<rparr>) w1 =
                (Inr (), c2, w2)"
  proof -
    have b: "loop_body env self a (overloads w1 l ! Suc k) c1 n1 w1 = (Break, c2, n1 + 1, w2)"
      using o r f by (simp add: loop_body_def)
    have "for_commands env self a l (Suc k) c1 n1 w1 = Some (Break, c2, n1 + 1, w2)"
      by (rule for_commands_stops [OF i b])
    then have "for_commands env self a l 0 c0 0 w = Some (Break, c2, n1 + 1, w2)"
      using for_commands_went_on [OF s] by simp
    then show ?thesis
      using assms g by (simp add: handle_line_def pre_command_def Let_def)
  qed
  have none: "handle_line env self line w =
                Some (case huh env self c0 w of
                        (Inl e, c2, w2) \<Rightarrow> (Inl e, w2)
                      | (Inr r, c2, w2) \<Rightarrow> (Inr None, w2))"
    if d: "get_commands p name = None \<or>
           get_commands p name = Some l \<and>
           (\<forall>j < length (overloads w l). \<not> ok_for env (overloads w l ! j) c0 w)"
  proof -
    from d show ?thesis
    proof
      assume "get_commands p name = None"
      then show ?thesis
        using assms
        by (simp add: handle_line_def pre_command_def Let_def split: prod.splits sum.splits)
    next
      assume e: "get_commands p name = Some l \<and>
                 (\<forall>j < length (overloads w l). \<not> ok_for env (overloads w l ! j) c0 w)"
      then have "for_commands env self a l 0 c0 0 w = Some (Continue, c0, 0, w)"
        by (intro for_commands_all_denied) simp
      then show ?thesis
        using assms e
        by (simp add: handle_line_def pre_command_def Let_def split: prod.splits sum.splits)
    qed
  qed
  have hh: "huh env self c0 w = (Inr True, c0, notify ''I don't understand that.'' w)"
    if "objects w self = Some (ParserObj q)" for q
    using that assms(3) by (simp add: huh_def Parser_huh_def Caller_def)
  have A: "get_commands p name = Some l \<and>
           went_on env self a l 0 k c0 0 w = Some (c1, n1, w1) \<and>
           k < length (overloads w1 l) \<and> \<not> ok_for env (overloads w1 l ! k) c1 w1 \<longrightarrow>
             went_on env self a l 0 (Suc k) c0 0 w = Some (c1, n1, w1) \<and>
             (Suc k < length (overloads w1 l) \<and> ok_for env (overloads w1 l ! Suc k) c1 w1 \<and>
              args_regexp (overloads w1 l ! Suc k) = None \<and>
              funcs env (func (overloads w1 l ! Suc k)) (c1\<lparr>args := [], kwargs := []\<rparr>) w1 =
                (Inr (), c2, w2) \<longrightarrow>
                handle_line env self line w = Some (Inr (Some (n1 + 1)), w2))"
    using skip next_one by blast
  have B: "get_commands p name = None \<or>
           get_commands p name = Some l \<and>
           (\<forall>j < length (overloads w l). \<not> ok_for env (overloads w l ! j) c0 w) \<longrightarrow>
             handle_line env self line w =
               Some (case huh env self c0 w of
                       (Inl e, c2, w2) \<Rightarrow> (Inl e, w2)
                     | (Inr r, c2, w2) \<Rightarrow> (Inr None, w2)) \<and>
             (\<forall>q. objects w self = Some (ParserObj q) \<longrightarrow>
                huh env self c0 w = (Inr True, c0, notify ''I don't understand that.'' w) \<and>
                handle_line env self line w = Some (Inr None, notify ''I don't understand that.'' w))"
  proof (intro impI conjI allI)
    assume d: "get_commands p name = None \<or>
               get_commands p name = Some l \<and>
               (\<forall>j < length (overloads w l). \<not> ok_for env (overloads w l ! j) c0 w)"
    show "handle_line env self line w =
            Some (case huh env self c0 w of
                    (Inl e, c2, w2) \<Rightarrow> (Inl e, w2)
                  | (Inr r, c2, w2) \<Rightarrow> (Inr None, w2))"
      by (rule none [OF d])
    fix q assume q: "objects w self = Some (ParserObj q)"
    show "huh env self c0 w = (Inr True, c0, notify ''I don't understand that.'' w)"
      by (rule hh [OF q])
    show "handle_line env self line w = Some (Inr None, notify ''I don't understand that.'' w)"
      using none [OF d] hh [OF q] by simp
  qed
  from A B show ?thesis by (rule conjI)
qed

theorem C4_permission_skip_and_unrecognized_witness:
  "get_parser (ex_dispatch [ex_command 5 None (Some 0), ex_command 6 None None]) 2 =
     Some ex_parser \<and>
   get_commands ex_parser ''go'' = Some 7 \<and>
   \<not> ok_for ex_env
       (overloads (ex_dispatch [ex_command 5 None (Some 0), ex_command 6 None None]) 7 ! 0)
       ((Caller (Some Conn) (Some ''go''))\<lparr>command := ''go'', args_str := []\<rparr>)
       (ex_dispatch [ex_command 5 None (Some 0), ex_command 6 None None]) \<and>
   ok_for ex_env
     (overloads (ex_dispatch [ex_command 5 None (Some 0), ex_command 6 None None]) 7 ! Suc 0)
     ((Caller (Some Conn) (Some ''go''))\<lparr>command := ''go'', args_str := []\<rparr>)
     (ex_dispatch [ex_command 5 None (Some 0), ex_command 6 None None]) \<and>
   handle_line ex_env 2 ''go'' (ex_dispatch [ex_command 5 None (Some 0), ex_command 6 None None]) =
     Some (Inr (Some 1),
           notify ''callable 6 sees parser 2''
             (ex_dispatch [ex_command 5 None (Some 0), ex_command 6 None None])) \<and>
   get_commands ex_parser ''look'' = None \<and>
   handle_line ex_env 2 ''look'' (ex_dispatch [ex_command 5 None (Some 0), ex_command 6 None None]) =
     Some (Inr None,
           notify ''I don't understand that.''
             (ex_dispatch [ex_command 5 None (Some 0), ex_command 6 None None]))"
proof -
  let ?cmds = "[ex_command 5 None (Some 0), ex_command 6 None None]"
  let ?w = "ex_dispatch ?cmds"
  let ?c = "(Caller (Some Conn) (Some ''go''))\<lparr>command := ''go'', args_str := []\<rparr>"
  let ?d = "(Caller (Some Conn) (Some ''look''))\<lparr>command := ''look'', args_str := []\<rparr>"
  have h1: "get_parser ?w 2 = Some ex_parser" by (simp add: ex_dispatch_fields)
  have h2: "Parser_split ex_parser (substitute ex_parser ''go'') = Inr (''go'', [])"
    by (simp add: ex_parser_fields)
  have h3: "?c = (Caller (Some Conn) (Some (substitute ex_parser ''go'')))
                   \<lparr>command := ''go'', args_str := []\<rparr>"
    by (simp add: ex_parser_fields)
  have g: "get_commands ex_parser ''go'' = Some 7" by (simp add: ex_parser_fields)
  have s0: "went_on ex_env 2 [] 7 0 0 ?c 0 ?w = Some (?c, 0, ?w)" by simp
  have k: "0 < length (overloads ?w 7)" "Suc 0 < length (overloads ?w 7)"
    by (simp_all add: ex_dispatch_fields)
  have d0: "\<not> ok_for ex_env (overloads ?w 7 ! 0) ?c ?w"
    by (simp add: ex_dispatch_fields ok_for_def ex_command_fields ex_env_def)
  have o1: "ok_for ex_env (overloads ?w 7 ! Suc 0) ?c ?w"
    by (simp add: ex_dispatch_fields ok_for_def ex_command_fields)
  have r1: "args_regexp (overloads ?w 7 ! Suc 0) = None"
    by (simp add: ex_dispatch_fields ex_command_fields)
  have f1: "funcs ex_env (func (overloads ?w 7 ! Suc 0)) (?c\<lparr>args := [], kwargs := []\<rparr>) ?w =
              (Inr (), ?c, notify ''callable 6 sees parser 2'' ?w)"
    by (simp add: ex_dispatch_fields ex_command_fields ex_env_def ex_report_current Caller_def)
  have go: "handle_line ex_env 2 ''go'' ?w =
              Some (Inr (Some 1), notify ''callable 6 sees parser 2'' ?w)"
    using C4_permission_skip_and_unrecognized [OF h1 h2 h3, where env = ex_env and l = 7
        and k = 0 and ?c1.0 = ?c and ?n1.0 = 0 and ?w1.0 = ?w and ?c2.0 = ?c
        and ?w2.0 = "notify ''callable 6 sees parser 2'' ?w"]
      g s0 k d0 o1 r1 f1
    by simp
  have i2: "Parser_split ex_parser (substitute ex_parser ''look'') = Inr (''look'', [])"
    by (simp add: ex_parser_fields)
  have i3: "?d = (Caller (Some Conn) (Some (substitute ex_parser ''look'')))
                   \<lparr>command := ''look'', args_str := []\<rparr>"
    by (simp add: ex_parser_fields)
  have n: "get_commands ex_parser ''look'' = None" by (simp add: ex_parser_fields)
  have ob: "objects ?w 2 = Some (ParserObj ex_parser)" by (simp add: ex_dispatch_fields)
  have look: "handle_line ex_env 2 ''look'' ?w =
                Some (Inr None, notify ''I don't understand that.'' ?w)"
    using C4_permission_skip_and_unrecognized [OF h1 i2 i3, where env = ex_env] n ob
    by blast
  from h1 g d0 o1 go n look show ?thesis by blast
qed

section \<open>Dispatch: a handler that raises\<close>

text \<open>
  Claim C1 against the code.  Two overloads of \<^verbatim>\<open>go\<close>: the first raises an ordinary
  exception, the second reports.  The exception is logged and the error hook sends its
  notice, and then the second overload runs all the same; \<^verbatim>\<open>handle_line\<close> counts two
  matched commands.
\<close>

theorem C1_dispatch_goes_on_after_fault:
  "handle_line ex_env 2 ''go'' (ex_dispatch [ex_command 0 None None, ex_command 5 None None]) =
     Some (Inr (Some 2),
           (ex_dispatch [ex_command 0 None None, ex_command 5 None None])
             \<lparr>trace := trace (ex_dispatch [ex_command 0 None None, ex_command 5 None None]) @
                [WarnErrorCaught 2 [''go''], LogException (Exception ''boom''),
                 Sent ''There was an error with your command.'',
                 Sent ''callable 5 sees parser 2'']\<rparr>)"
proof -
  let ?w = "ex_dispatch [ex_command 0 None None, ex_command 5 None None]"
  let ?c = "(Caller (Some Conn) (Some ''go''))\<lparr>command := ''go'', args_str := []\<rparr>"
  let ?c1 = "?c\<lparr>exception := Some (Exception ''boom'')\<rparr>"
  let ?w1 = "?w\<lparr>trace := trace ?w @
                 [WarnErrorCaught 2 [''go''], LogException (Exception ''boom''),
                  Sent ''There was an error with your command.'']\<rparr>"
  have s: "went_on ex_env 2 [] 7 0 1 ?c 0 ?w = Some (?c1, 1, ?w1)"
    by (simp add: ex_dispatch_fields loop_body_def ok_for_def ex_command_fields ex_env_def
        on_error_def notify_def Caller_def)
  have p: "protocol_parser ?w1 = Some 2" by (simp add: ex_dispatch_fields)
  have o: "overloads ?w1 7 = [ex_command 0 None None, ex_command 5 None None]"
    by (simp add: ex_dispatch_fields)
  have b: "loop_body ex_env 2 [] (overloads ?w1 7 ! 1) ?c1 1 ?w1 =
             (Break, ?c1, 2, notify ''callable 5 sees parser 2'' ?w1)"
    unfolding o
    by (simp add: loop_body_def ok_for_def ex_command_fields ex_env_def ex_report_current [OF p]
        Caller_def)
  have "for_commands ex_env 2 [] 7 1 ?c1 1 ?w1 =
          Some (Break, ?c1, 2, notify ''callable 5 sees parser 2'' ?w1)"
    by (rule for_commands_stops [OF _ b]) (simp add: ex_dispatch_fields)
  then have f: "for_commands ex_env 2 [] 7 0 ?c 0 ?w =
                  Some (Break, ?c1, 2, notify ''callable 5 sees parser 2'' ?w1)"
    using for_commands_went_on [OF s] by simp
  show ?thesis
    by (simp add: handle_line_def ex_dispatch_fields ex_parser_fields pre_command_def Let_def f
        notify_def)
qed

section \<open>\<^verbatim>\<open>Menu\<close>: matching a line\<close>

text \<open>
  Claim C6, as the code has it.  The text is non-empty and is lower-cased (it is not
  trimmed).  \<^verbatim>\<open>$\<close> selects the last item of a menu that has items.  A text that
  \<^verbatim>\<open>int\<close> reads as \<open>n\<close> selects the item at position \<open>n - 1\<close> when \<open>0 < n\<close> and at the
  raw index \<open>n\<close> otherwise (negative counting from the end), provided the index is in range.
  A text that is no integer, or whose index is out of range, is matched as a prefix of the
  lower-cased labels: no match calls the no-match hook, one match selects it, several
  matches call the multiple-match hook; with the default hook the matches and the prompt
  are sent and the menu stays the dispatcher after \<^verbatim>\<open>Menu.huh\<close>.
\<close>

theorem C6_menu_match:
  assumes "get_menu w self = Some m" and "ctext c = Some t0" and "t0 \<noteq> []"
    and "t = lower t0"
    and "found = filter (\<lambda>item. prefix t (lower (item_text item))) (items m)"
  shows "(t = ''$'' \<and> items m \<noteq> [] \<longrightarrow>
            Menu_match env self c w = (Inr (Some (last (items m))), c, w)) \<and>
         (t \<noteq> ''$'' \<and> py_int (int_max_str_digits env) t = Some n \<and> 0 < n \<and> n \<le> int (length (items m)) \<longrightarrow>
            Menu_match env self c w = (Inr (Some (items m ! nat (n - 1))), c, w)) \<and>
         (t \<noteq> ''$'' \<and> py_int (int_max_str_digits env) t = Some n \<and> n \<le> 0 \<and> - int (length (items m)) \<le> n \<and>
          items m \<noteq> [] \<longrightarrow>
            Menu_match env self c w =
              (Inr (Some (items m ! nat (if n < 0 then int (length (items m)) + n else 0))), c, w)) \<and>
         (t \<noteq> ''$'' \<and>
          (py_int (int_max_str_digits env) t = None \<or>
           (\<exists>k. py_int (int_max_str_digits env) t = Some k \<and>
                (int (length (items m)) < k \<or> k < - int (length (items m)) \<or>
                 (k = 0 \<and> items m = [])))) \<longrightarrow>
            (found = [] \<longrightarrow>
               Menu_match env self c w =
                 unmatched (case no_matches m of
                              None \<Rightarrow> Menu_no_matches env self c w
                            | Some f \<Rightarrow> funcs env f c w)) \<and>
            (\<forall>x. found = [x] \<longrightarrow> Menu_match env self c w = (Inr (Some x), c, w)) \<and>
            (1 < length found \<longrightarrow>
               Menu_match env self c w =
                 unmatched (case multiple_matches m of
                              None \<Rightarrow> Menu_multiple_matches env self c found w
                            | Some f \<Rightarrow> funcs2 env f c found w) \<and>
               (\<forall>s. multiple_matches m = None \<and> menu.prompt m = Text s \<and>
                    connection c = Some Conn \<and> t0 \<noteq> abort_command m \<longrightarrow>
                    Menu_match env self c w =
                      (Inr None, c,
                       w\<lparr>trace := trace w @
                            map Sent (''That matched multiple items:'' # menu_lines m found @ [s])\<rparr>) \<and>
                    fst (Menu_huh env self c w) = Inr True \<and>
                    protocol_parser (snd (snd (Menu_huh env self c w))) = protocol_parser w)))"
proof -
  have l: "t \<noteq> []" using assms(3,4) by (simp add: lower_def)
  have dollar: "Menu_match env self c w = (Inr (Some (last (items m))), c, w)"
    if "t = ''$''" "items m \<noteq> []"
    using that assms(1-4) py_index_last [OF that(2)]
    by (simp add: Menu_match_def Let_def)
  have pos: "Menu_match env self c w = (Inr (Some (items m ! nat (n - 1))), c, w)"
    if "t \<noteq> ''$''" "py_int (int_max_str_digits env) t = Some n" "0 < n" "n \<le> int (length (items m))"
    using that assms(1-4) py_index_positive [OF that(3,4)]
    by (simp add: Menu_match_def Let_def indexed_def)
  have raw: "Menu_match env self c w =
               (Inr (Some (items m ! nat (if n < 0 then int (length (items m)) + n else 0))), c, w)"
    if "t \<noteq> ''$''" "py_int (int_max_str_digits env) t = Some n" "n \<le> 0" "- int (length (items m)) \<le> n" "items m \<noteq> []"
    using that assms(1-4) py_index_raw [OF that(3,4,5)]
    by (simp add: Menu_match_def Let_def indexed_def)
  have rest:
    "(found = [] \<longrightarrow>
        Menu_match env self c w =
          unmatched (case no_matches m of
                       None \<Rightarrow> Menu_no_matches env self c w
                     | Some f \<Rightarrow> funcs env f c w)) \<and>
     (\<forall>x. found = [x] \<longrightarrow> Menu_match env self c w = (Inr (Some x), c, w)) \<and>
     (1 < length found \<longrightarrow>
        Menu_match env self c w =
          unmatched (case multiple_matches m of
                       None \<Rightarrow> Menu_multiple_matches env self c found w
                     | Some f \<Rightarrow> funcs2 env f c found w) \<and>
        (\<forall>s. multiple_matches m = None \<and> menu.prompt m = Text s \<and>
             connection c = Some Conn \<and> t0 \<noteq> abort_command m \<longrightarrow>
             Menu_match env self c w =
               (Inr None, c,
                w\<lparr>trace := trace w @
                     map Sent (''That matched multiple items:'' # menu_lines m found @ [s])\<rparr>) \<and>
             fst (Menu_huh env self c w) = Inr True \<and>
             protocol_parser (snd (snd (Menu_huh env self c w))) = protocol_parser w))"
    if d: "t \<noteq> ''$''"
      and o: "py_int (int_max_str_digits env) t = None \<or>
              (\<exists>k. py_int (int_max_str_digits env) t = Some k \<and>
                   (int (length (items m)) < k \<or> k < - int (length (items m)) \<or>
                    (k = 0 \<and> items m = [])))"
  proof -
    have i: "indexed (int_max_str_digits env) (items m) (lower t0) = None"
      using o assms(4) by (auto simp add: indexed_def py_index_def Let_def)
    note mp = Menu_match_prefix [OF assms(1,2,3) d [unfolded assms(4)] i,
        folded assms(4), folded assms(5)]
    have a: "found = [] \<longrightarrow>
               Menu_match env self c w =
                 unmatched (case no_matches m of
                              None \<Rightarrow> Menu_no_matches env self c w
                            | Some f \<Rightarrow> funcs env f c w)"
      using mp by (simp add: Let_def)
    have b: "\<forall>x. found = [x] \<longrightarrow> Menu_match env self c w = (Inr (Some x), c, w)"
      using mp by (simp add: Let_def)
    have c1: "Menu_match env self c w =
                 unmatched (case multiple_matches m of
                              None \<Rightarrow> Menu_multiple_matches env self c found w
                            | Some f \<Rightarrow> funcs2 env f c found w)"
      if "1 < length found"
      using mp that by (auto simp add: Let_def)
    have c2: "Menu_match env self c w =
                (Inr None, c,
                 w\<lparr>trace := trace w @
                      map Sent (''That matched multiple items:'' # menu_lines m found @ [s])\<rparr>) \<and>
              fst (Menu_huh env self c w) = Inr True \<and>
              protocol_parser (snd (snd (Menu_huh env self c w))) = protocol_parser w"
      if f: "1 < length found" and h: "multiple_matches m = None" "menu.prompt m = Text s"
        "connection c = Some Conn" "t0 \<noteq> abort_command m" for s
    proof -
      let ?w' = "w\<lparr>trace := trace w @
                      map Sent (''That matched multiple items:'' # menu_lines m found @ [s])\<rparr>"
      have mm: "Menu_match env self c w = (Inr None, c, ?w')"
        using c1 [OF f] h assms(1)
        by (simp add: unmatched_def Menu_multiple_matches_def Let_def Menu_send_items_def
            notify_all_eq notify_def)
      have ih: "Intercept_huh env self c w = (Inr False, c, w)"
        using Intercept_huh_other [OF get_intercept_menu [OF assms(1)]] assms(2) h(4) by simp
      have g: "get_menu ?w' self = Some m" using assms(1) by (simp add: get_menu_def)
      have "fst (Menu_huh env self c w) = Inr True \<and>
            protocol_parser (snd (snd (Menu_huh env self c w))) = protocol_parser w"
        using ih mm g h(2,3)
        by (simp add: Menu_huh_def Menu_explain_def send_Text Caller_def Menu_send_items_def
            notify_all_eq notify_def)
      with mm show ?thesis by simp
    qed
    from a b c1 c2 show ?thesis by blast
  qed
  from dollar pos raw rest show ?thesis by blast
qed

theorem C6_menu_match_witness:
  "get_menu (ex_menu_world ex_fruit) 2 = Some (ex_menu ex_fruit) \<and>
   ''ap'' = lower ''Ap'' \<and> py_int 4300 ''ap'' = None \<and>
   Menu_match ex_env 2 (Caller (Some Conn) (Some ''Ap'')) (ex_menu_world ex_fruit) =
     (Inr None, Caller (Some Conn) (Some ''Ap''),
      (ex_menu_world ex_fruit)
        \<lparr>trace := trace (ex_menu_world ex_fruit) @
           [Sent ''That matched multiple items:'', Sent ''[1] Apple'', Sent ''[2] Apricot'',
            Sent ''Type a number or @abort to abort.'']\<rparr>) \<and>
   protocol_parser
     (snd (snd (Menu_huh ex_env 2 (Caller (Some Conn) (Some ''Ap'')) (ex_menu_world ex_fruit)))) =
     Some 2 \<and>
   ''ban'' = lower ''ban'' \<and> py_int 4300 ''ban'' = None \<and>
   Menu_match ex_env 2 (Caller (Some Conn) (Some ''ban'')) (ex_menu_world ex_fruit) =
     (Inr (Some \<lparr>item_id = 3, item_text = ''Banana'', item_func = 13, index = 3\<rparr>),
      Caller (Some Conn) (Some ''ban''), ex_menu_world ex_fruit) \<and>
   ''1'' = lower ''1'' \<and> py_int 4300 ''1'' = Some 1 \<and>
   Menu_match ex_env 2 (Caller (Some Conn) (Some ''1'')) (ex_menu_world ex_fruit) =
     (Inr (Some \<lparr>item_id = 1, item_text = ''Apple'', item_func = 11, index = 1\<rparr>),
      Caller (Some Conn) (Some ''1''), ex_menu_world ex_fruit) \<and>
   ''$'' = lower ''$'' \<and>
   Menu_match ex_env 2 (Caller (Some Conn) (Some ''$'')) (ex_menu_world ex_fruit) =
     (Inr (Some \<lparr>item_id = 3, item_text = ''Banana'', item_func = 13, index = 3\<rparr>),
      Caller (Some Conn) (Some ''$''), ex_menu_world ex_fruit)"
proof -
  let ?w = "ex_menu_world ex_fruit"
  let ?m = "ex_menu ex_fruit"
  let ?apple = "\<lparr>item_id = 1, item_text = ''Apple'', item_func = 11, index = 1\<rparr>"
  let ?apricot = "\<lparr>item_id = 2, item_text = ''Apricot'', item_func = 12, index = 2\<rparr>"
  let ?banana = "\<lparr>item_id = 3, item_text = ''Banana'', item_func = 13, index = 3\<rparr>"
  have g: "get_menu ?w 2 = Some ?m" by (simp add: ex_menu_world_fields)
  have con: "\<And>t. connection (Caller (Some Conn) (Some t)) = Some Conn"
    and ct: "\<And>t. ctext (Caller (Some Conn) (Some t)) = Some t"
    by (simp_all add: Caller_def)
  \<comment> \<open>several matches\<close>
  have a1: "''ap'' = lower ''Ap''" by code_simp
  have a2: "py_int 4300 ''ap'' = None" by code_simp
  have a3: "[?apple, ?apricot] = filter (\<lambda>item. prefix ''ap'' (lower (item_text item))) (items ?m)"
    by code_simp
  have a4: "menu_lines ?m [?apple, ?apricot] = [''[1] Apple'', ''[2] Apricot'']"
    by code_simp
  note A = C6_menu_match [OF g ct _ a1 a3, where env = ex_env]
  have ra: "Menu_match ex_env 2 (Caller (Some Conn) (Some ''Ap'')) ?w =
              (Inr None, Caller (Some Conn) (Some ''Ap''),
               ?w\<lparr>trace := trace ?w @
                  [Sent ''That matched multiple items:'', Sent ''[1] Apple'', Sent ''[2] Apricot'',
                   Sent ''Type a number or @abort to abort.'']\<rparr>)"
    and rb: "protocol_parser (snd (snd (Menu_huh ex_env 2 (Caller (Some Conn) (Some ''Ap'')) ?w))) = Some 2"
    using A a2 a4 by (auto simp add: ex_menu_fields con ex_menu_world_fields)
  \<comment> \<open>one match\<close>
  have b1: "''ban'' = lower ''ban''" by code_simp
  have b2: "py_int 4300 ''ban'' = None" by code_simp
  have b3: "[?banana] = filter (\<lambda>item. prefix ''ban'' (lower (item_text item))) (items ?m)"
    by code_simp
  note B = C6_menu_match [OF g ct _ b1 b3, where env = ex_env]
  have rc: "Menu_match ex_env 2 (Caller (Some Conn) (Some ''ban'')) ?w =
              (Inr (Some ?banana), Caller (Some Conn) (Some ''ban''), ?w)"
    using B b2 by simp
  \<comment> \<open>a number\<close>
  have c1: "''1'' = lower ''1''" by code_simp
  have c2: "py_int 4300 ''1'' = Some 1" by code_simp
  note C = C6_menu_match [OF g ct _ c1 refl, where n = 1 and env = ex_env]
  have rd: "Menu_match ex_env 2 (Caller (Some Conn) (Some ''1'')) ?w =
              (Inr (Some ?apple), Caller (Some Conn) (Some ''1''), ?w)"
    using C c2 by (simp add: ex_fruit_items)
  \<comment> \<open>the last item\<close>
  have d1: "''$'' = lower ''$''" by code_simp
  note D = C6_menu_match [OF g ct _ d1 refl, where env = ex_env]
  have re: "Menu_match ex_env 2 (Caller (Some Conn) (Some ''$'')) ?w =
              (Inr (Some ?banana), Caller (Some Conn) (Some ''$''), ?w)"
    using D by (simp add: ex_fruit_items)
  from g a1 a2 ra rb b1 b2 rc c1 c2 rd d1 re show ?thesis by blast
qed

text \<open>
  The claim as written fails where it sends an out-of-range number to the no-match path:
  in a menu of two items, \<^verbatim>\<open>5\<close> is out of range and then matches the label
  \<^verbatim>\<open>5 Alive\<close> as a prefix; that item is selected and nothing is sent.
\<close>

theorem C6_out_of_range_number_matches_label:
  "py_int 4300 ''5'' = Some 5 \<and>
   map item_text (items (ex_menu [ex_item 1 ''Apple'', ex_item 2 ''5 Alive''])) = [''Apple'', ''5 Alive''] \<and>
   fst (Menu_match ex_env 2 (Caller (Some Conn) (Some ''5''))
          (ex_menu_world [ex_item 1 ''Apple'', ex_item 2 ''5 Alive''])) =
     Inr (Some \<lparr>item_id = 2, item_text = ''5 Alive'', item_func = 12, index = 2\<rparr>) \<and>
   trace (snd (snd (Menu_match ex_env 2 (Caller (Some Conn) (Some ''5''))
                      (ex_menu_world [ex_item 1 ''Apple'', ex_item 2 ''5 Alive''])))) =
     trace (ex_menu_world [ex_item 1 ''Apple'', ex_item 2 ''5 Alive''])"
  by code_simp

section \<open>\<^verbatim>\<open>Menu\<close>: the indices of the items\<close>

text \<open>
  Claim C9 against the code.  The constructor numbers the three items 1, 2, 3.  Adding a
  fourth through \<^verbatim>\<open>Menu.item\<close> appends it with index 0 and then raises
  \<^verbatim>\<open>AttributeError\<close>, because the method that was to renumber the items does not exist.
\<close>

theorem C9_item_decorator_raises:
  "map index (items (ex_menu ex_fruit)) = [1, 2, 3] \<and>
   fst (Menu_item 2 ''Cherry'' 14 4 (ex_menu_world ex_fruit)) = Inl AttributeError \<and>
   map_option (\<lambda>m. map (\<lambda>i. (item_text i, index i)) (items m))
     (get_menu (snd (Menu_item 2 ''Cherry'' 14 4 (ex_menu_world ex_fruit))) 2) =
     Some [(''Apple'', 1), (''Apricot'', 2), (''Banana'', 3), (''Cherry'', 0)]"
  by code_simp


section \<open>\<^verbatim>\<open>Reader\<close>: collecting lines\<close>

text \<open>
  Claim C7, as the code has it.  The reader's after-line and before-line hooks are absent
  or strings, and no line is the abort or the spell-check command.  In single-line mode the
  line is appended to the buffer (it becomes the buffer when the buffer was empty; an empty
  line is dropped), \<^verbatim>\<open>restore_parser\<close> is assigned to the connection (the default parser
  when it is \<^verbatim>\<open>None\<close>) and then the completion hook is called with the buffer as text.
  In multi-line mode the non-empty lines are joined by the separator, the empty ones are
  dropped, and the line equal to the finish command completes the reader in the same way
  with the joined buffer.
\<close>

theorem C7_reader_lines:
  assumes "get_reader w self = Some r"
    and "\<not> is_hook (after_line r)" and "\<not> is_hook (before_line r)"
    and "objects w (target w (restore_parser r)) = Some tb" and "text_only tb"
    and "target w (restore_parser r) \<noteq> self"
  shows "(\<not> multiline r \<and> l \<noteq> abort_command r \<and> l \<noteq> spell_check_command r \<longrightarrow>
            Reader_huh env self (Caller (Some Conn) (Some l)) w =
              completed env self r (appended r l) (Caller (Some Conn) (Some l))
                (w\<lparr>trace := trace w @ map Sent (hook_lines (after_line r))\<rparr>) tb \<and>
            (buffer r = [] \<longrightarrow> appended r l = l)) \<and>
         (multiline r \<and>
          (\<forall>l \<in> set ls. l \<noteq> abort_command r \<and> l \<noteq> spell_check_command r \<and>
                         l \<noteq> done_command r) \<and>
          done_command r \<noteq> abort_command r \<and> done_command r \<noteq> spell_check_command r \<longrightarrow>
            Reader_huh env self (Caller (Some Conn) (Some (done_command r)))
                (feed_lines env self ls w) =
              completed env self r
                (join (line_separator r) (filter (\<lambda>l. l \<noteq> []) (buffer r # ls)))
                (Caller (Some Conn) (Some (done_command r)))
                (w\<lparr>trace := trace w @ concat (map (\<lambda>l. line_events r) ls) @
                                map Sent (hook_lines (after_line r))\<rparr>) tb)"
proof -
  have single: "Reader_huh env self (Caller (Some Conn) (Some l)) w =
                  completed env self r (appended r l) (Caller (Some Conn) (Some l))
                    (w\<lparr>trace := trace w @ map Sent (hook_lines (after_line r))\<rparr>) tb"
    if "\<not> multiline r" "l \<noteq> abort_command r" "l \<noteq> spell_check_command r"
    using Reader_huh_line(2) [OF assms(1), of "Caller (Some Conn) (Some l)" l tb env]
      that assms(2-6)
    by (simp add: Caller_def)
  have first: "buffer r = [] \<longrightarrow> appended r l = l"
    by (simp add: appended_def)
  have multi: "Reader_huh env self (Caller (Some Conn) (Some (done_command r)))
                   (feed_lines env self ls w) =
                 completed env self r
                   (join (line_separator r) (filter (\<lambda>l. l \<noteq> []) (buffer r # ls)))
                   (Caller (Some Conn) (Some (done_command r)))
                   (w\<lparr>trace := trace w @ concat (map (\<lambda>l. line_events r) ls) @
                                   map Sent (hook_lines (after_line r))\<rparr>) tb"
    if m: "multiline r"
      and ls: "\<forall>l \<in> set ls. l \<noteq> abort_command r \<and> l \<noteq> spell_check_command r \<and>
                              l \<noteq> done_command r"
      and d: "done_command r \<noteq> abort_command r" "done_command r \<noteq> spell_check_command r"
  proof -
    let ?b = "join (line_separator r) (filter (\<lambda>l. l \<noteq> []) (buffer r # ls))"
    let ?rF = "r\<lparr>buffer := ?b\<rparr>"
    let ?wF = "w\<lparr>objects := (objects w)(self \<mapsto> ReaderObj ?rF),
                  trace := trace w @ concat (map (\<lambda>l. line_events r) ls)\<rparr>"
    have f: "feed_lines env self ls w = ?wF"
      by (rule feed_lines_accumulates [OF assms(1) m ls assms(2,3)])
    have gF: "get_reader ?wF self = Some ?rF" by (simp add: get_reader_def)
    have tF: "objects ?wF (target ?wF (restore_parser ?rF)) = Some tb"
      using assms(4,6) by (simp add: target_def split: option.splits)
    have nF: "target ?wF (restore_parser ?rF) \<noteq> self"
      using assms(6) by (simp add: target_def split: option.splits)
    have "Reader_huh env self (Caller (Some Conn) (Some (done_command r))) ?wF =
            completed env self ?rF (if multiline ?rF then buffer ?rF else appended ?rF (done_command r))
              (Caller (Some Conn) (Some (done_command r)))
              (?wF\<lparr>trace := trace ?wF @ map Sent (hook_lines (after_line ?rF))\<rparr>) tb"
      using Reader_huh_line(2) [OF gF, of "Caller (Some Conn) (Some (done_command r))"
          "done_command r" tb env] d assms(2,3,5) tF nF
      by (simp add: Caller_def)
    then show ?thesis
      using m by (simp add: f completed_def)
  qed
  from single first multi show ?thesis by blast
qed

theorem C7_reader_lines_witness:
  "get_reader (ex_reader_world True) 2 = Some (ex_reader True) \<and>
   objects (ex_reader_world True) (target (ex_reader_world True) (restore_parser (ex_reader True))) =
     Some (ParserObj ex_base) \<and>
   multiline (ex_reader True) \<and>
   abort_command (ex_reader True) = ''@abort'' \<and>
   spell_check_command (ex_reader True) = ''.spell'' \<and>
   done_command (ex_reader True) = ''.'' \<and>
   fst (Reader_huh ex_env 2 (Caller (Some Conn) (Some ''.''))
          (feed_lines ex_env 2 [''a'', ''b''] (ex_reader_world True))) = Inr True \<and>
   ctext (fst (snd (Reader_huh ex_env 2 (Caller (Some Conn) (Some ''.''))
                      (feed_lines ex_env 2 [''a'', ''b''] (ex_reader_world True))))) =
     Some ''a\<newline>b'' \<and>
   protocol_parser (snd (snd (Reader_huh ex_env 2 (Caller (Some Conn) (Some ''.''))
                                (feed_lines ex_env 2 [''a'', ''b''] (ex_reader_world True))))) =
     Some 0 \<and>
   last (trace (snd (snd (Reader_huh ex_env 2 (Caller (Some Conn) (Some ''.''))
                            (feed_lines ex_env 2 [''a'', ''b''] (ex_reader_world True)))))) =
     Sent ''callable 7 sees parser 0''"
proof -
  let ?r = "ex_reader True"
  let ?w = "ex_reader_world True"
  have h1: "get_reader ?w 2 = Some ?r" by (simp add: ex_reader_world_fields)
  have h2: "\<not> is_hook (after_line ?r)" by (simp add: ex_reader_fields is_hook_def)
  have h3: "\<not> is_hook (before_line ?r)" by (simp add: ex_reader_fields is_hook_def)
  have h4: "objects ?w (target ?w (restore_parser ?r)) = Some (ParserObj ex_base)"
    by (simp add: ex_reader_fields ex_reader_world_fields target_def)
  have h5: "text_only (ParserObj ex_base)" by (simp add: text_only_def)
  have h6: "target ?w (restore_parser ?r) \<noteq> 2"
    by (simp add: ex_reader_fields ex_reader_world_fields target_def)
  have m: "multiline ?r" by (simp add: ex_reader_fields)
  have ls: "\<forall>l \<in> set [''a'', ''b''].
              l \<noteq> abort_command ?r \<and> l \<noteq> spell_check_command ?r \<and> l \<noteq> done_command ?r"
    by (simp add: ex_reader_fields)
  have d: "done_command ?r \<noteq> abort_command ?r" "done_command ?r \<noteq> spell_check_command ?r"
    by (simp_all add: ex_reader_fields)
  have R: "Reader_huh ex_env 2 (Caller (Some Conn) (Some (done_command ?r)))
             (feed_lines ex_env 2 [''a'', ''b''] ?w) =
           completed ex_env 2 ?r
             (join (line_separator ?r) (filter (\<lambda>l. l \<noteq> []) (buffer ?r # [''a'', ''b''])))
             (Caller (Some Conn) (Some (done_command ?r)))
             (?w\<lparr>trace := trace ?w @ concat (map (\<lambda>l. line_events ?r) [''a'', ''b'']) @
                              map Sent (hook_lines (after_line ?r))\<rparr>) (ParserObj ex_base)"
    using C7_reader_lines [OF h1 h2 h3 h4 h5 h6, where ls = "[''a'', ''b'']" and env = ex_env]
      m ls d
    by blast
  have E: "Reader_huh ex_env 2 (Caller (Some Conn) (Some ''.''))
             (feed_lines ex_env 2 [''a'', ''b''] ?w) =
           (Inr True, (Caller (Some Conn) (Some ''.''))\<lparr>ctext := Some ''a\<newline>b''\<rparr>,
            notify ''callable 7 sees parser 0''
              (assigned
                 (?w\<lparr>trace := trace ?w,
                     objects := (objects ?w)(2 \<mapsto> ReaderObj (?r\<lparr>buffer := ''a\<newline>b''\<rparr>))\<rparr>)
                 None (ParserObj ex_base)))"
    using R
    by (simp add: ex_reader_fields completed_def answered_def ex_env_def line_events_def
        hook_lines_def ex_report_default target_def ex_reader_world_fields)
  show ?thesis
    unfolding E using h1 h4 m
    by (simp add: target_def ex_reader_world_fields ex_reader_fields)
qed

text \<open>
  The claim as written fails twice.  The lines \<^verbatim>\<open>a\<close>, an empty line and \<^verbatim>\<open>b\<close> complete
  with \<^verbatim>\<open>a\nb\<close>, not with the three lines joined.  And a reader attached while parser 1
  is current completes with the default parser 0 current, not parser 1.
\<close>

theorem C7_blank_line_dropped_and_default_parser:
  "join ''\<newline>'' [''a'', [], ''b''] = ''a\<newline>\<newline>b'' \<and>
   ctext (fst (snd (Reader_huh ex_env 2 (Caller (Some Conn) (Some ''.''))
                      (feed_lines ex_env 2 [''a'', [], ''b''] (ex_reader_world True))))) =
     Some ''a\<newline>b'' \<and>
   protocol_parser (ex_world (ReaderObj (ex_reader False))) = Some 1 \<and>
   ctext (fst (snd (Reader_huh ex_env 2 (Caller (Some Conn) (Some ''hello''))
                      (ex_reader_world False)))) = Some ''hello'' \<and>
   protocol_parser (snd (snd (Reader_huh ex_env 2 (Caller (Some Conn) (Some ''hello''))
                                (ex_reader_world False)))) = Some 0"
  by code_simp

end
